theory Spec2Isabelle
  imports Complex_Main "HOL-Library.Word"
begin

section \<open>Data model (types.ts)\<close>

datatype StorytellerStatus = IDLE | LISTENING | THINKING | SPEAKING | ERROR

datatype Speaker = User | AI

text \<open>
  A JavaScript string is modelled as a HOL \<open>string\<close>: the character with code \<open>n\<close> stands
  for the UTF-16 code unit \<open>n\<close>, so the model covers the strings whose code units are below
  256. The field \<open>text\<close> of \<open>Turn\<close> is called \<open>turn_text\<close>.
\<close>

record Turn =
  speaker :: Speaker
  turn_text :: string

datatype js_error = TypeError | RangeError | InvalidCharacterError | NotSupportedError

type_synonym byte = "8 word"

section \<open>Transport encoding (services/geminiService.ts, encode and decode)\<close>

subsection \<open>The platform's btoa and atob\<close>

text \<open>
  \<open>btoa\<close> and \<open>atob\<close> are browser built-ins; they are modelled after the WHATWG
  forgiving-base64 algorithms. A binary string is the list of its code units.
\<close>

definition sextet_char :: "nat \<Rightarrow> char" where
  "sextet_char i =
     (if i < 26 then char_of (65 + i)
      else if i < 52 then char_of (71 + i)
      else if i < 62 then char_of (i - 4)
      else if i = 62 then CHR ''+'' else CHR ''/'')"

definition char_sextet :: "char \<Rightarrow> nat option" where
  "char_sextet c =
     (let n = (of_char c :: nat) in
      if 65 \<le> n \<and> n \<le> 90 then Some (n - 65)
      else if 97 \<le> n \<and> n \<le> 122 then Some (n - 71)
      else if 48 \<le> n \<and> n \<le> 57 then Some (n + 4)
      else if n = 43 then Some 62
      else if n = 47 then Some 63
      else None)"

fun base64_chars :: "nat list \<Rightarrow> string" where
  "base64_chars (a # b # c # rest) =
     (let n = a * 65536 + b * 256 + c in
      sextet_char (n div 262144) # sextet_char (n div 4096 mod 64) #
      sextet_char (n div 64 mod 64) # sextet_char (n mod 64) # base64_chars rest)"
| "base64_chars [a, b] =
     (let n = (a * 256 + b) * 4 in
      [sextet_char (n div 4096), sextet_char (n div 64 mod 64), sextet_char (n mod 64), CHR ''=''])"
| "base64_chars [a] =
     (let n = a * 16 in
      [sextet_char (n div 64), sextet_char (n mod 64), CHR ''='', CHR ''=''])"
| "base64_chars [] = []"

text \<open>\<open>btoa\<close> throws on a code unit above 255.\<close>

definition btoa :: "nat list \<Rightarrow> js_error + string" where
  "btoa binary =
     (if \<exists>u \<in> set binary. 255 < u then Inl InvalidCharacterError
      else Inr (base64_chars binary))"

definition ascii_whitespace :: "char \<Rightarrow> bool" where
  "ascii_whitespace c \<longleftrightarrow> (of_char c :: nat) \<in> {9, 10, 12, 13, 32}"

text \<open>
  If the length is a multiple of four, one or two trailing \<open>=\<close> are removed.
\<close>

definition strip_padding :: "string \<Rightarrow> string" where
  "strip_padding d =
     (if length d mod 4 = 0 \<and> d \<noteq> [] \<and> last d = CHR ''='' then
        (if butlast d \<noteq> [] \<and> last (butlast d) = CHR ''='' then butlast (butlast d)
         else butlast d)
      else d)"

fun sextets_of :: "string \<Rightarrow> nat list option" where
  "sextets_of [] = Some []"
| "sextets_of (c # cs) =
     (case char_sextet c of
        None \<Rightarrow> None
      | Some i \<Rightarrow> (case sextets_of cs of None \<Rightarrow> None | Some js \<Rightarrow> Some (i # js)))"

text \<open>
  Four sextets give three bytes; a rest of three sextets gives two bytes (the last two bits
  are dropped), a rest of two gives one byte (the last four bits are dropped).
\<close>

fun bits_to_units :: "nat list \<Rightarrow> nat list" where
  "bits_to_units (a # b # c # d # rest) =
     (let n = ((a * 64 + b) * 64 + c) * 64 + d in
      (n div 65536) # (n div 256 mod 256) # (n mod 256) # bits_to_units rest)"
| "bits_to_units [a, b, c] =
     (let n = ((a * 64 + b) * 64 + c) div 4 in [n div 256, n mod 256])"
| "bits_to_units [a, b] = [(a * 64 + b) div 16]"
| "bits_to_units [a] = []"
| "bits_to_units [] = []"

definition atob :: "string \<Rightarrow> js_error + nat list" where
  "atob s =
     (let d = strip_padding (filter (\<lambda>c. \<not> ascii_whitespace c) s) in
      if length d mod 4 = 1 then Inl InvalidCharacterError
      else case sextets_of d of
             None \<Rightarrow> Inl InvalidCharacterError
           | Some js \<Rightarrow> Inr (bits_to_units js))"

subsection \<open>encode and decode\<close>

definition fromCharCode :: "byte \<Rightarrow> nat" where
  "fromCharCode b = unat b"

text \<open>The loop appends one code unit per byte; the result goes through \<open>btoa\<close>.\<close>

definition encode :: "byte list \<Rightarrow> js_error + string" where
  "encode bytes =
     (let len = length bytes;
          binary = foldl (\<lambda>binary i. binary @ [fromCharCode (bytes ! i)]) [] [0..<len]
      in btoa binary)"

text \<open>A store into a \<open>Uint8Array\<close> keeps the value modulo 256.\<close>

definition decode :: "string \<Rightarrow> js_error + byte list" where
  "decode base64 =
     (case atob base64 of
        Inl e \<Rightarrow> Inl e
      | Inr binaryString \<Rightarrow>
          (let len = length binaryString
           in Inr (map (\<lambda>i. of_nat (binaryString ! i)) [0..<len])))"

text \<open>Proof devices for the round trip: the sextets and the padding of an encoding.\<close>

fun sextets :: "nat list \<Rightarrow> nat list" where
  "sextets (a # b # c # rest) =
     (let n = a * 65536 + b * 256 + c in
      (n div 262144) # (n div 4096 mod 64) # (n div 64 mod 64) # (n mod 64) # sextets rest)"
| "sextets [a, b] = (let n = (a * 256 + b) * 4 in [n div 4096, n div 64 mod 64, n mod 64])"
| "sextets [a] = (let n = a * 16 in [n div 64, n mod 64])"
| "sextets [] = []"

definition padding :: "nat list \<Rightarrow> string" where
  "padding xs = replicate ((3 - length xs mod 3) mod 3) CHR ''=''"

section \<open>PCM codec (services/geminiService.ts, createBlob and decodeAudioData)\<close>

text \<open>
  Samples are finite \<open>Float32Array\<close> values, modelled as reals. Scaling by 32768, a power of
  two, and dividing an \<open>Int16\<close> by 32768 are exact in IEEE arithmetic, so no rounding is lost
  by the model. A store into an \<open>Int16Array\<close> truncates towards zero and wraps modulo
  \<open>2 ^ 16\<close>.
\<close>

record Blob =
  data :: "string option"
  mimeType :: "string option"

definition ToInt16 :: "real \<Rightarrow> 16 word" where
  "ToInt16 x = word_of_int (if 0 \<le> x then \<lfloor>x\<rfloor> else \<lceil>x\<rceil>)"

text \<open>The bytes of one \<open>Int16Array\<close> element in its buffer, low byte first.\<close>

definition int16_bytes :: "16 word \<Rightarrow> byte list" where
  "int16_bytes w = [of_nat (unat w mod 256), of_nat (unat w div 256)]"

definition createBlob :: "real list \<Rightarrow> js_error + Blob" where
  "createBlob samples =
     (let l = length samples;
          int16 = map (\<lambda>i. ToInt16 (samples ! i * 32768)) [0..<l]
      in case encode (concat (map int16_bytes int16)) of
           Inl e \<Rightarrow> Inl e
         | Inr d \<Rightarrow> Inr \<lparr>data = Some d, mimeType = Some ''audio/pcm;rate=16000''\<rparr>)"

datatype AudioContextState = Suspended | Running | Closed

record AudioBuffer =
  numberOfChannels :: nat
  frames :: nat
  sampleRate :: nat
  channelData :: "real list list"

definition duration :: "AudioBuffer \<Rightarrow> real" where
  "duration b = real (frames b) / real (sampleRate b)"

text \<open>\<open>new Int16Array(buffer)\<close> throws a RangeError on an odd byte length.\<close>

definition Int16Array :: "byte list \<Rightarrow> js_error + 16 word list" where
  "Int16Array bytes =
     (if odd (length bytes) then Inl RangeError
      else Inr (map (\<lambda>i. of_nat (unat (bytes ! (2 * i)) + 256 * unat (bytes ! (2 * i + 1))))
                  [0..<length bytes div 2]))"

text \<open>
  \<open>createBuffer\<close> of the Web Audio API throws NotSupportedError when an argument is zero.
  The implementation's upper limits on the channel count and the rate are not modelled.
\<close>

definition createBuffer :: "nat \<Rightarrow> nat \<Rightarrow> nat \<Rightarrow> js_error + AudioBuffer" where
  "createBuffer numChannels len rate =
     (if numChannels = 0 \<or> len = 0 \<or> rate = 0 then Inl NotSupportedError
      else Inr \<lparr>numberOfChannels = numChannels, frames = len, sampleRate = rate,
                channelData = replicate numChannels (replicate len 0)\<rparr>)"

text \<open>
  The frame count \<open>dataInt16.length / numChannels\<close> is a float; \<open>createBuffer\<close> truncates it and
  stores beyond the channel's length are ignored, which is what \<open>div\<close> gives. The context
  argument is only used to create the buffer.
\<close>

definition decodeAudioData ::
  "byte list \<Rightarrow> AudioContextState \<Rightarrow> nat \<Rightarrow> nat \<Rightarrow> js_error + AudioBuffer" where
  "decodeAudioData pcm ctx rate numChannels =
     (case Int16Array pcm of
        Inl e \<Rightarrow> Inl e
      | Inr dataInt16 \<Rightarrow>
          (let frameCount = length dataInt16 div numChannels in
           case createBuffer numChannels frameCount rate of
             Inl e \<Rightarrow> Inl e
           | Inr buffer \<Rightarrow>
               Inr (buffer\<lparr>channelData :=
                      map (\<lambda>channel.
                             map (\<lambda>i. real_of_int (sint (dataInt16 ! (i * numChannels + channel)))
                                        / 32768)
                               [0..<frameCount])
                          [0..<numChannels]\<rparr>)))"

section \<open>The hook's state (hooks/useStoryteller.ts)\<close>

text \<open>
  A scheduled source node: its identity, the time passed to \<open>start\<close> and its buffer's
  duration.
\<close>

record AudioBufferSourceNode =
  node_id :: nat
  start_when :: real
  node_duration :: real

text \<open>A microphone stream with its number of tracks.\<close>

datatype MediaStream = MediaStream nat

text \<open>The names of the sound effects (\<open>SoundEffect\<close> of soundService.ts).\<close>

datatype SoundEffect = sparkle | thump | whoosh

text \<open>
  The calls the hook makes on platform objects, in program order. \<open>SessionClose\<close> and
  \<open>SendToolResponse\<close> are the continuations chained on the session promise with \<open>then\<close>;
  they run once that promise is fulfilled.
\<close>

datatype effect =
    TrackStop
  | ProcessorDisconnect
  | CloseInputContext
  | CloseOutputContext
  | SourceStart nat real
  | SourceStop nat
  | SessionClose nat
  | SendToolResponse nat "string option" "string option" string
  | PlaySound SoundEffect
  | ConsoleWarn
  | ConsoleError

text \<open>
  The three React state cells, the refs, the module-level cache \<open>audioBuffers\<close> of
  soundService.ts (the names whose buffers are decoded), the trace of effects, and counters
  for the identities of new source nodes and sessions. An audio context is held by its state;
  the Active Playback Set \<open>audioSourcesRef\<close> is a JavaScript \<open>Set\<close>, kept in insertion order.
\<close>

record Storyteller =
  status :: StorytellerStatus
  conversation :: "Turn list"
  error :: "string option"
  sessionPromiseRef :: "nat option"
  inputAudioContextRef :: "AudioContextState option"
  outputAudioContextRef :: "AudioContextState option"
  microphoneStreamRef :: "MediaStream option"
  scriptProcessorRef :: "unit option"
  currentInputTranscriptionRef :: string
  currentOutputTranscriptionRef :: string
  nextStartTimeRef :: real
  audioSourcesRef :: "AudioBufferSourceNode list"
  audioBuffers :: "SoundEffect list"
  trace :: "effect list"
  nextNodeId :: nat
  nextSessionId :: nat

definition initial :: Storyteller where
  "initial =
     \<lparr>status = IDLE, conversation = [], error = None, sessionPromiseRef = None,
      inputAudioContextRef = None, outputAudioContextRef = None, microphoneStreamRef = None,
      scriptProcessorRef = None, currentInputTranscriptionRef = [],
      currentOutputTranscriptionRef = [], nextStartTimeRef = 0, audioSourcesRef = [],
      audioBuffers = [], trace = [], nextNodeId = 0, nextSessionId = 0\<rparr>"

definition emit :: "effect list \<Rightarrow> Storyteller \<Rightarrow> Storyteller" where
  "emit es s = s\<lparr>trace := trace s @ es\<rparr>"

subsection \<open>cleanup and stopSession\<close>

text \<open>
  \<open>close()\<close> moves the context to the closed state; the refs of the two contexts are not
  reset to null.
\<close>

definition stopMicrophone :: "Storyteller \<Rightarrow> Storyteller" where
  "stopMicrophone s =
     (case microphoneStreamRef s of
        Some (MediaStream n) \<Rightarrow> emit (replicate n TrackStop) (s\<lparr>microphoneStreamRef := None\<rparr>)
      | None \<Rightarrow> s)"

definition disconnectProcessor :: "Storyteller \<Rightarrow> Storyteller" where
  "disconnectProcessor s =
     (case scriptProcessorRef s of
        Some u \<Rightarrow> emit [ProcessorDisconnect] (s\<lparr>scriptProcessorRef := None\<rparr>)
      | None \<Rightarrow> s)"

definition closeInputContext :: "Storyteller \<Rightarrow> Storyteller" where
  "closeInputContext s =
     (case inputAudioContextRef s of
        Some st \<Rightarrow>
          if st \<noteq> Closed
          then emit [CloseInputContext] (s\<lparr>inputAudioContextRef := Some Closed\<rparr>)
          else s
      | None \<Rightarrow> s)"

definition closeOutputContext :: "Storyteller \<Rightarrow> Storyteller" where
  "closeOutputContext s =
     (case outputAudioContextRef s of
        Some st \<Rightarrow>
          if st \<noteq> Closed
          then emit [CloseOutputContext] (s\<lparr>outputAudioContextRef := Some Closed\<rparr>)
          else s
      | None \<Rightarrow> s)"

text \<open>Lines 40 to 42, which the interruption branch of \<open>handleMessage\<close> repeats.\<close>

definition stopSources :: "Storyteller \<Rightarrow> Storyteller" where
  "stopSources s =
     (let s1 = emit (map (\<lambda>source. SourceStop (node_id source)) (audioSourcesRef s)) s
      in s1\<lparr>audioSourcesRef := [], nextStartTimeRef := 0\<rparr>)"

definition closeSession :: "Storyteller \<Rightarrow> Storyteller" where
  "closeSession s =
     (let s1 = (case sessionPromiseRef s of
                  Some session \<Rightarrow> emit [SessionClose session] s
                | None \<Rightarrow> s)
      in s1\<lparr>sessionPromiseRef := None\<rparr>)"

definition cleanup :: "Storyteller \<Rightarrow> Storyteller" where
  "cleanup s =
     (let s1 = stopMicrophone s;
          s2 = disconnectProcessor s1;
          s3 = closeInputContext s2;
          s4 = closeOutputContext s3;
          s5 = stopSources s4;
          s6 = closeSession s5
      in s6\<lparr>status := IDLE, error := None\<rparr>)"

definition stopSession :: "Storyteller \<Rightarrow> Storyteller" where
  "stopSession s = cleanup s"

subsection \<open>Sound effects (soundService.ts)\<close>

text \<open>
  The keys of \<open>soundLibrary\<close> are the values of \<open>SoundEffect\<close>; they are also the names
  that \<open>playSoundEffectDeclaration\<close> allows for the argument \<open>sound\<close>.
\<close>

definition soundLibrary :: "SoundEffect list" where
  "soundLibrary = [sparkle, thump, whoosh]"

text \<open>
  \<open>preloadSounds\<close>: every asset not yet cached is decoded; a failed decode is logged and
  skipped. Which assets the context decodes is the environment's \<open>decodable\<close>.
\<close>

fun preloadSounds_loop ::
  "(SoundEffect \<Rightarrow> bool) \<Rightarrow> SoundEffect list \<Rightarrow> Storyteller \<Rightarrow> Storyteller" where
  "preloadSounds_loop decodable [] s = s"
| "preloadSounds_loop decodable (soundName # keys) s =
     preloadSounds_loop decodable keys
       (if soundName \<notin> set (audioBuffers s) then
          (if decodable soundName then s\<lparr>audioBuffers := audioBuffers s @ [soundName]\<rparr>
           else emit [ConsoleError] s)
        else s)"

definition preloadSounds :: "(SoundEffect \<Rightarrow> bool) \<Rightarrow> Storyteller \<Rightarrow> Storyteller" where
  "preloadSounds decodable s = preloadSounds_loop decodable soundLibrary s"

definition playSound :: "SoundEffect \<Rightarrow> AudioContextState \<Rightarrow> Storyteller \<Rightarrow> Storyteller" where
  "playSound soundName ctx s =
     (if soundName \<in> set (audioBuffers s) \<and> ctx = Running then emit [PlaySound soundName] s
      else if ctx \<noteq> Running then emit [ConsoleWarn] s
      else emit [ConsoleWarn] s)"

subsection \<open>Inbound messages\<close>

text \<open>
  The fields of \<open>LiveServerMessage\<close> that \<open>handleMessage\<close> reads. An optional field is an
  \<open>option\<close>; the flags \<open>turnComplete\<close> and \<open>interrupted\<close> are only tested for truthiness.
  The argument \<open>sound\<close> is cast to \<open>SoundEffect\<close>; the model covers the names of that type,
  and \<open>None\<close> stands for an absent or empty argument.
\<close>

record FunctionArgs =
  sound :: "SoundEffect option"

record FunctionCall =
  fc_id :: "string option"
  fc_name :: "string option"
  fc_args :: "FunctionArgs option"

record LiveServerToolCall =
  functionCalls :: "FunctionCall list option"

record Transcription =
  transcription_text :: "string option"

record Part =
  inlineData :: "Blob option"

record Content =
  parts :: "Part list option"

record LiveServerContent =
  outputTranscription :: "Transcription option"
  inputTranscription :: "Transcription option"
  turnComplete :: bool
  modelTurn :: "Content option"
  interrupted :: bool

record LiveServerMessage =
  toolCall :: "LiveServerToolCall option"
  serverContent :: "LiveServerContent option"

text \<open>How a statement of the handler's \<open>try\<close> block ends.\<close>

datatype 'a completion = Normal 'a | Return 'a | Throw js_error 'a

fun and_then :: "'a completion \<Rightarrow> ('a \<Rightarrow> 'a completion) \<Rightarrow> 'a completion" where
  "and_then (Normal s) f = f s"
| "and_then (Return s) f = Return s"
| "and_then (Throw e s) f = Throw e s"

subsection \<open>handleMessage: tool calls (lines 58 to 77)\<close>

text \<open>
  Reading \<open>fc.args.sound\<close> throws a TypeError when \<open>args\<close> is undefined, and iterating
  \<open>functionCalls\<close> does when it is undefined.
\<close>

fun handleFunctionCalls :: "FunctionCall list \<Rightarrow> Storyteller \<Rightarrow> Storyteller completion" where
  "handleFunctionCalls [] s = Normal s"
| "handleFunctionCalls (fc # fcs) s =
     (if fc_name fc = Some ''playSoundEffect'' \<and> outputAudioContextRef s \<noteq> None then
        (case fc_args fc of
           None \<Rightarrow> Throw TypeError s
         | Some args \<Rightarrow>
             (let s1 = (case (sound args, outputAudioContextRef s) of
                          (Some sfx, Some ctx) \<Rightarrow> playSound sfx ctx s
                        | _ \<Rightarrow> s);
                  s2 = (case sessionPromiseRef s1 of
                          Some session \<Rightarrow>
                            emit [SendToolResponse session (fc_id fc) (fc_name fc) ''ok''] s1
                        | None \<Rightarrow> s1)
              in handleFunctionCalls fcs s2))
      else handleFunctionCalls fcs s)"

definition toolCallStep :: "LiveServerMessage \<Rightarrow> Storyteller \<Rightarrow> Storyteller completion" where
  "toolCallStep message s =
     (case toolCall message of
        None \<Rightarrow> Normal s
      | Some tc \<Rightarrow>
          (case functionCalls tc of
             None \<Rightarrow> Throw TypeError s
           | Some fcs \<Rightarrow> handleFunctionCalls fcs s))"

subsection \<open>handleMessage: transcription deltas (lines 79 to 93)\<close>

text \<open>Appending an undefined \<open>text\<close> to a string appends the word undefined.\<close>

definition text_of :: "Transcription \<Rightarrow> string" where
  "text_of t = (case transcription_text t of Some txt \<Rightarrow> txt | None \<Rightarrow> ''undefined'')"

definition updateUserTurn :: "string \<Rightarrow> Turn list \<Rightarrow> Turn list" where
  "updateUserTurn current prev =
     (if prev \<noteq> [] \<and> speaker (last prev) = User
      then butlast prev @ [\<lparr>speaker = User, turn_text = current\<rparr>]
      else prev @ [\<lparr>speaker = User, turn_text = current\<rparr>])"

definition transcriptionStep :: "LiveServerMessage \<Rightarrow> Storyteller \<Rightarrow> Storyteller" where
  "transcriptionStep message s =
     (case serverContent message of
        None \<Rightarrow> s
      | Some sc \<Rightarrow>
          (case outputTranscription sc of
             Some ot \<Rightarrow>
               s\<lparr>currentOutputTranscriptionRef := currentOutputTranscriptionRef s @ text_of ot\<rparr>
           | None \<Rightarrow>
               (case inputTranscription sc of
                  Some it \<Rightarrow>
                    (let s1 = s\<lparr>currentInputTranscriptionRef :=
                                   currentInputTranscriptionRef s @ text_of it\<rparr>
                     in s1\<lparr>conversation :=
                             updateUserTurn (currentInputTranscriptionRef s1) (conversation s1)\<rparr>)
                | None \<Rightarrow> s)))"

subsection \<open>handleMessage: turn completion (lines 95 to 122)\<close>

text \<open>\<open>String.prototype.trim\<close> on code units below 256.\<close>

definition js_whitespace :: "char \<Rightarrow> bool" where
  "js_whitespace c \<longleftrightarrow> (of_char c :: nat) \<in> {9, 10, 11, 12, 13, 32, 160}"

definition trim :: "string \<Rightarrow> string" where
  "trim s = rev (dropWhile js_whitespace (rev (dropWhile js_whitespace s)))"

definition finalizeTurn :: "string \<Rightarrow> string \<Rightarrow> Turn list \<Rightarrow> Turn list" where
  "finalizeTurn userInput aiResponse prev =
     (let updatedConversation = prev;
          updatedConversation =
            (if userInput \<noteq> [] \<and> length updatedConversation > 0 then
               (let lastTurnIndex = length updatedConversation - 1 in
                if speaker (updatedConversation ! lastTurnIndex) = User
                then updatedConversation
                       [lastTurnIndex := (updatedConversation ! lastTurnIndex)\<lparr>turn_text := userInput\<rparr>]
                else updatedConversation)
             else updatedConversation)
      in if aiResponse \<noteq> []
         then updatedConversation @ [\<lparr>speaker = AI, turn_text = aiResponse\<rparr>]
         else updatedConversation)"

definition turnCompleteStep :: "LiveServerMessage \<Rightarrow> Storyteller \<Rightarrow> Storyteller" where
  "turnCompleteStep message s =
     (case serverContent message of
        None \<Rightarrow> s
      | Some sc \<Rightarrow>
          if turnComplete sc then
            (let userInput = trim (currentInputTranscriptionRef s);
                 aiResponse = trim (currentOutputTranscriptionRef s)
             in s\<lparr>conversation := finalizeTurn userInput aiResponse (conversation s),
                  currentInputTranscriptionRef := [],
                  currentOutputTranscriptionRef := [],
                  status := LISTENING\<rparr>)
          else s)"

subsection \<open>handleMessage: audio fragments (lines 124 to 149)\<close>

text \<open>
  \<open>message.serverContent?.modelTurn?.parts[0]?.inlineData?.data\<close>: indexing an undefined
  \<open>parts\<close> throws a TypeError, every other missing link gives undefined.
\<close>

definition base64Audio_of :: "LiveServerMessage \<Rightarrow> js_error + string option" where
  "base64Audio_of message =
     (case serverContent message of
        None \<Rightarrow> Inr None
      | Some sc \<Rightarrow>
          (case modelTurn sc of
             None \<Rightarrow> Inr None
           | Some mt \<Rightarrow>
               (case parts mt of
                  None \<Rightarrow> Inl TypeError
                | Some [] \<Rightarrow> Inr None
                | Some (p # ps) \<Rightarrow>
                    (case inlineData p of None \<Rightarrow> Inr None | Some b \<Rightarrow> Inr (data b)))))"

text \<open>
  Lines 133 to 148, the scheduling of one decoded buffer: \<open>now\<close> is the reading of
  \<open>outputAudioContext.currentTime\<close>.
\<close>

definition scheduleNext :: "real \<Rightarrow> AudioBuffer \<Rightarrow> Storyteller \<Rightarrow> Storyteller" where
  "scheduleNext now audioBuffer s =
     (let s1 = s\<lparr>nextStartTimeRef := max (nextStartTimeRef s) now\<rparr>;
          source = \<lparr>node_id = nextNodeId s1, start_when = nextStartTimeRef s1,
                    node_duration = duration audioBuffer\<rparr>;
          s2 = emit [SourceStart (node_id source) (nextStartTimeRef s1)]
                 (s1\<lparr>nextNodeId := nextNodeId s1 + 1\<rparr>);
          s3 = s2\<lparr>nextStartTimeRef := nextStartTimeRef s2 + duration audioBuffer\<rparr>
      in s3\<lparr>audioSourcesRef := audioSourcesRef s3 @ [source]\<rparr>)"

definition audioStep :: "real \<Rightarrow> LiveServerMessage \<Rightarrow> Storyteller \<Rightarrow> Storyteller completion" where
  "audioStep now message s =
     (case base64Audio_of message of
        Inl e \<Rightarrow> Throw e s
      | Inr None \<Rightarrow> Normal s
      | Inr (Some base64Audio) \<Rightarrow>
          if base64Audio = [] then Normal s
          else
            (let s1 = s\<lparr>status := SPEAKING\<rparr> in
             case outputAudioContextRef s1 of
               None \<Rightarrow> Return s1
             | Some outputAudioContext \<Rightarrow>
                 (case decode base64Audio of
                    Inl e \<Rightarrow> Throw e s1
                  | Inr bytes \<Rightarrow>
                      (case decodeAudioData bytes outputAudioContext 24000 1 of
                         Inl e \<Rightarrow> Throw e s1
                       | Inr audioBuffer \<Rightarrow> Normal (scheduleNext now audioBuffer s1)))))"

subsection \<open>handleMessage: interruption (lines 151 to 155)\<close>

definition interruptedStep :: "LiveServerMessage \<Rightarrow> Storyteller \<Rightarrow> Storyteller" where
  "interruptedStep message s =
     (case serverContent message of
        None \<Rightarrow> s
      | Some sc \<Rightarrow> if interrupted sc then stopSources s else s)"

subsection \<open>handleMessage\<close>

definition processingError :: string where
  "processingError = ''An error occurred while processing the AI's response. Please try again.''"

definition handleMessage_try ::
  "real \<Rightarrow> LiveServerMessage \<Rightarrow> Storyteller \<Rightarrow> Storyteller completion" where
  "handleMessage_try now message s =
     and_then
       (and_then
          (and_then
             (and_then (toolCallStep message s) (\<lambda>s. Normal (transcriptionStep message s)))
             (\<lambda>s. Normal (turnCompleteStep message s)))
          (audioStep now message))
       (\<lambda>s. Normal (interruptedStep message s))"

text \<open>
  The handler is taken as one atomic step: the only suspension point, the \<open>await\<close> of the
  already settled \<open>decodeAudioData\<close> promise, is not interleaved with other handlers. State
  updater functions are applied at the point of the call.
\<close>

definition handleMessage :: "real \<Rightarrow> LiveServerMessage \<Rightarrow> Storyteller \<Rightarrow> Storyteller" where
  "handleMessage now message s =
     (case handleMessage_try now message s of
        Normal s' \<Rightarrow> s'
      | Return s' \<Rightarrow> s'
      | Throw e s' \<Rightarrow>
          cleanup ((emit [ConsoleError] s')\<lparr>error := Some processingError, status := ERROR\<rparr>))"

subsection \<open>startSession and the session callbacks\<close>

datatype setup_error = NotAllowedError | NotFoundError | OtherError

text \<open>
  What the environment does during one \<open>startSession\<close>: the outcome of \<open>getUserMedia\<close>, the
  states in which the two new contexts start, whether \<open>resume()\<close> resolves, which sound assets
  decode, and whether \<open>process.env.API_KEY\<close> is set (\<open>createGeminiSession\<close> throws if not).
\<close>

record StartEnv =
  getUserMedia :: "setup_error + MediaStream"
  newInputState :: AudioContextState
  newOutputState :: AudioContextState
  resumeOk :: bool
  decodable :: "SoundEffect \<Rightarrow> bool"
  apiKeySet :: bool

definition microphoneError :: string where
  "microphoneError = ''Could not access microphone. Please grant permission and try again.''"

definition setupError :: string where
  "setupError = ''Something went wrong while setting up the storyteller. Please try again.''"

definition sessionError :: string where
  "sessionError = ''An error occurred with the AI storyteller. Please try again.''"

definition connectionError :: string where
  "connectionError =
     ''Could not connect to the storyteller. Please check your internet connection and try again.''"

text \<open>The \<open>catch\<close> block of \<open>startSession\<close> (lines 231 to 239); it does not call \<open>cleanup\<close>.\<close>

definition startFailed :: "setup_error \<Rightarrow> Storyteller \<Rightarrow> Storyteller" where
  "startFailed err s =
     (let s1 = emit [ConsoleError] s;
          s2 = (if err = NotAllowedError \<or> err = NotFoundError
                then s1\<lparr>error := Some microphoneError\<rparr>
                else s1\<lparr>error := Some setupError\<rparr>)
      in s2\<lparr>status := ERROR\<rparr>)"

definition startSession :: "StartEnv \<Rightarrow> Storyteller \<Rightarrow> Storyteller" where
  "startSession env s0 =
     (let s = s0\<lparr>error := None\<rparr> in
      if status s \<noteq> IDLE \<and> status s \<noteq> ERROR then s
      else
        (case getUserMedia env of
           Inl err \<Rightarrow> startFailed err s
         | Inr stream \<Rightarrow>
             (let s1 = s\<lparr>microphoneStreamRef := Some stream,
                          inputAudioContextRef := Some (newInputState env),
                          outputAudioContextRef := Some (newOutputState env)\<rparr>
              in if newOutputState env = Suspended \<and> \<not> resumeOk env
                 then startFailed OtherError s1
                 else
                   (let s2 = (if newOutputState env = Suspended
                              then s1\<lparr>outputAudioContextRef := Some Running\<rparr> else s1);
                        s3 = preloadSounds (decodable env) s2;
                        s4 = s3\<lparr>conversation := []\<rparr>
                    in if \<not> apiKeySet env then startFailed OtherError s4
                       else s4\<lparr>sessionPromiseRef := Some (nextSessionId s4),
                                nextSessionId := nextSessionId s4 + 1\<rparr>))))"

text \<open>The callbacks given to \<open>createGeminiSession\<close>, and the \<open>catch\<close> on the session promise.\<close>

definition onOpen :: "Storyteller \<Rightarrow> Storyteller" where
  "onOpen s =
     (if inputAudioContextRef s = None \<or> microphoneStreamRef s = None then s
      else s\<lparr>scriptProcessorRef := Some (), status := LISTENING\<rparr>)"

definition onError :: "Storyteller \<Rightarrow> Storyteller" where
  "onError s = cleanup ((emit [ConsoleError] s)\<lparr>error := Some sessionError, status := ERROR\<rparr>)"

definition onClose :: "Storyteller \<Rightarrow> Storyteller" where
  "onClose s = cleanup s"

definition onConnectionError :: "Storyteller \<Rightarrow> Storyteller" where
  "onConnectionError s =
     cleanup ((emit [ConsoleError] s)\<lparr>error := Some connectionError, status := ERROR\<rparr>)"

text \<open>The \<open>ended\<close> listener of a scheduled source (lines 139 to 144).\<close>

definition onEnded :: "nat \<Rightarrow> Storyteller \<Rightarrow> Storyteller" where
  "onEnded source s =
     (let s1 = s\<lparr>audioSourcesRef := filter (\<lambda>n. node_id n \<noteq> source) (audioSourcesRef s)\<rparr>
      in if length (audioSourcesRef s1) = 0 then s1\<lparr>status := LISTENING\<rparr> else s1)"

section \<open>Definitions used to state the properties\<close>

subsection \<open>The inbound message variants of the channel contract\<close>

definition noContent :: LiveServerContent where
  "noContent =
     \<lparr>outputTranscription = None, inputTranscription = None, turnComplete = False,
      modelTurn = None, interrupted = False\<rparr>"

definition inputTranscriptionMessage :: "string \<Rightarrow> LiveServerMessage" where
  "inputTranscriptionMessage txt =
     \<lparr>toolCall = None,
      serverContent =
        Some (noContent\<lparr>inputTranscription := Some \<lparr>transcription_text = Some txt\<rparr>\<rparr>)\<rparr>"

definition outputTranscriptionMessage :: "string \<Rightarrow> LiveServerMessage" where
  "outputTranscriptionMessage txt =
     \<lparr>toolCall = None,
      serverContent =
        Some (noContent\<lparr>outputTranscription := Some \<lparr>transcription_text = Some txt\<rparr>\<rparr>)\<rparr>"

definition turnCompleteMessage :: LiveServerMessage where
  "turnCompleteMessage =
     \<lparr>toolCall = None, serverContent = Some (noContent\<lparr>turnComplete := True\<rparr>)\<rparr>"

definition audioMessage :: "string \<Rightarrow> LiveServerMessage" where
  "audioMessage d =
     \<lparr>toolCall = None,
      serverContent =
        Some (noContent\<lparr>modelTurn :=
                Some \<lparr>parts = Some [\<lparr>inlineData = Some \<lparr>data = Some d, mimeType = None\<rparr>\<rparr>]\<rparr>\<rparr>)\<rparr>"

definition interruptedMessage :: LiveServerMessage where
  "interruptedMessage =
     \<lparr>toolCall = None, serverContent = Some (noContent\<lparr>interrupted := True\<rparr>)\<rparr>"

definition playSoundEffectMessage :: "string \<Rightarrow> SoundEffect \<Rightarrow> LiveServerMessage" where
  "playSoundEffectMessage call_id sfx =
     \<lparr>toolCall =
        Some \<lparr>functionCalls =
                Some [\<lparr>fc_id = Some call_id, fc_name = Some ''playSoundEffect'',
                       fc_args = Some \<lparr>sound = Some sfx\<rparr>\<rparr>]\<rparr>,
      serverContent = None\<rparr>"

subsection \<open>Effects added by a step\<close>

definition new_effects :: "Storyteller \<Rightarrow> Storyteller \<Rightarrow> effect list" where
  "new_effects s s' = drop (length (trace s)) (trace s')"

fun is_ack :: "effect \<Rightarrow> bool" where
  "is_ack (SendToolResponse session call_id name result) = True"
| "is_ack e = False"

fun is_playback :: "effect \<Rightarrow> bool" where
  "is_playback (PlaySound name) = True"
| "is_playback e = False"

subsection \<open>The PCM round trip\<close>

text \<open>
  \<open>createBlob\<close>, then \<open>decode\<close> of the blob's data, then \<open>decodeAudioData\<close> at 24000 Hz and one
  channel, as \<open>handleMessage\<close> calls it; the result is channel 0.
\<close>

definition pcm_roundtrip :: "AudioContextState \<Rightarrow> real list \<Rightarrow> js_error + real list" where
  "pcm_roundtrip ctx samples =
     (case createBlob samples of
        Inl e \<Rightarrow> Inl e
      | Inr blob \<Rightarrow>
          (case data blob of
             None \<Rightarrow> Inl TypeError
           | Some d \<Rightarrow>
               (case decode d of
                  Inl e \<Rightarrow> Inl e
                | Inr bytes \<Rightarrow>
                    (case decodeAudioData bytes ctx 24000 1 of
                       Inl e \<Rightarrow> Inl e
                     | Inr buffer \<Rightarrow> Inr (channelData buffer ! 0)))))"

subsection \<open>Runs\<close>

text \<open>Successive schedulings, each with the clock reading at its call.\<close>

fun scheduleAll :: "(real \<times> AudioBuffer) list \<Rightarrow> Storyteller \<Rightarrow> Storyteller" where
  "scheduleAll [] s = s"
| "scheduleAll ((now, audioBuffer) # rest) s = scheduleAll rest (scheduleNext now audioBuffer s)"

text \<open>The handlers the hook exposes or registers, as events.\<close>

datatype event =
    Start StartEnv
  | Stop
  | Message real LiveServerMessage
  | Open
  | SessionError
  | Close
  | ConnectionError
  | Ended nat

fun fire :: "event \<Rightarrow> Storyteller \<Rightarrow> Storyteller" where
  "fire (Start env) s = startSession env s"
| "fire Stop s = stopSession s"
| "fire (Message now message) s = handleMessage now message s"
| "fire Open s = onOpen s"
| "fire SessionError s = onError s"
| "fire Close s = onClose s"
| "fire ConnectionError s = onConnectionError s"
| "fire (Ended source) s = onEnded source s"

definition run :: "event list \<Rightarrow> Storyteller \<Rightarrow> Storyteller" where
  "run events s = foldl (\<lambda>s e. fire e s) s events"

definition error_invariant :: "Storyteller \<Rightarrow> bool" where
  "error_invariant s \<longleftrightarrow> (status s = ERROR) = (error s \<noteq> None)"

text \<open>
  Two environments of \<open>startSession\<close>: one in which every acquisition succeeds, one in which
  the microphone permission is denied; and the state of a session that was started and
  opened from the initial state.
\<close>

definition okEnv :: StartEnv where
  "okEnv =
     \<lparr>getUserMedia = Inr (MediaStream 1), newInputState = Running, newOutputState = Suspended,
      resumeOk = True, decodable = (\<lambda>soundName. True), apiKeySet = True\<rparr>"

definition deniedEnv :: StartEnv where
  "deniedEnv = okEnv\<lparr>getUserMedia := Inl NotAllowedError\<rparr>"

definition liveState :: Storyteller where
  "liveState = run [Start okEnv, Open] initial"

subsection \<open>Completions\<close>

fun state_of :: "'a completion \<Rightarrow> 'a" where
  "state_of (Normal s) = s"
| "state_of (Return s) = s"
| "state_of (Throw e s) = s"

fun throws :: "'a completion \<Rightarrow> bool" where
  "throws (Throw e s) = True"
| "throws c = False"

text \<open>A message that carries both transcription deltas, with or without the turn-complete flag.\<close>

definition bothDeltasMessage :: "string \<Rightarrow> string \<Rightarrow> bool \<Rightarrow> LiveServerMessage" where
  "bothDeltasMessage aiText userText completes =
     \<lparr>toolCall = None,
      serverContent =
        Some (noContent\<lparr>outputTranscription := Some \<lparr>transcription_text = Some aiText\<rparr>,
                        inputTranscription := Some \<lparr>transcription_text = Some userText\<rparr>,
                        turnComplete := completes\<rparr>)\<rparr>"

text \<open>The buffer decoded from one silent 16-bit sample at 24000 Hz.\<close>

definition silence :: AudioBuffer where
  "silence = \<lparr>numberOfChannels = 1, frames = 1, sampleRate = 24000, channelData = [replicate 1 0]\<rparr>"

text \<open>
  Proof devices for the scheduling: the start times a run assigns from a given cursor, and the
  cursor after the run.
\<close>

fun starts :: "(real \<times> AudioBuffer) list \<Rightarrow> real \<Rightarrow> real list" where
  "starts [] c = []"
| "starts ((now, b) # rest) c = max c now # starts rest (max c now + duration b)"

fun cursor_after :: "(real \<times> AudioBuffer) list \<Rightarrow> real \<Rightarrow> real" where
  "cursor_after [] c = c"
| "cursor_after ((now, b) # rest) c = cursor_after rest (max c now + duration b)"


section \<open>Round trip of the transport encoding\<close>

subsection \<open>Arithmetic of sextets and bytes\<close>

lemma recombine3: "(n div 4096 * 64 + n div 64 mod 64) * 64 + n mod 64 = (n::nat)"
proof -
  have e2: "n div 4096 * 64 + n div 64 mod 64 = n div 64"
    using div_mult_mod_eq [of "n div 64" 64] by (simp add: div_mult2_eq [symmetric])
  show ?thesis by (simp only: e2 div_mult_mod_eq)
qed

lemma recombine4: "((n div 262144 * 64 + n div 4096 mod 64) * 64 + n div 64 mod 64) * 64 + n mod 64 = (n::nat)"
proof -
  have e3: "n div 262144 * 64 + n div 4096 mod 64 = n div 4096"
    using div_mult_mod_eq [of "n div 4096" 64] by (simp add: div_mult2_eq [symmetric])
  show ?thesis by (simp only: e3 recombine3)
qed

lemma split3:
  assumes "a < 256" "b < 256" "c < (256::nat)"
  shows "(a * 65536 + b * 256 + c) div 65536 = a"
    and "(a * 65536 + b * 256 + c) div 256 mod 256 = b"
    and "(a * 65536 + b * 256 + c) mod 256 = c"
proof -
  have lt: "b * 256 + c < 65536" using assms by linarith
  have r1: "a * 65536 + b * 256 + c = (b * 256 + c) + a * 65536" by simp
  have r2: "a * 65536 + b * 256 + c = c + (a * 256 + b) * 256" by simp
  have r3: "a * 256 + b = b + a * 256" by simp
  have "(b * 256 + c + a * 65536) div 65536 = a + (b * 256 + c) div 65536"
    by (rule div_mult_self1) simp
  with lt show "(a * 65536 + b * 256 + c) div 65536 = a"
    by (simp only: r1 div_less add_0_right)
  have "(c + (a * 256 + b) * 256) div 256 = (a * 256 + b) + c div 256"
    by (rule div_mult_self1) simp
  with assms(3) have d: "(a * 65536 + b * 256 + c) div 256 = a * 256 + b"
    by (simp only: r2 div_less add_0_right)
  have "(b + a * 256) mod 256 = b mod 256" by (rule mod_mult_self1)
  with assms(2) show "(a * 65536 + b * 256 + c) div 256 mod 256 = b"
    by (simp only: d r3 mod_less)
  have "(c + (a * 256 + b) * 256) mod 256 = c mod 256" by (rule mod_mult_self1)
  with assms(3) show "(a * 65536 + b * 256 + c) mod 256 = c"
    by (simp only: r2 mod_less)
qed

lemma recombine2: "n div 64 * 64 + n mod 64 = (n::nat)"
  by simp

lemma split2:
  assumes "a < 256" "b < (256::nat)"
  shows "(a * 256 + b) div 256 = a" and "(a * 256 + b) mod 256 = b"
  using assms by simp_all

lemma char_sextet_inverse: "i < 64 \<Longrightarrow> char_sextet (sextet_char i) = Some i"
  by (auto simp: char_sextet_def sextet_char_def Let_def)

lemma of_char_sextet_char:
  "i < 64 \<Longrightarrow> (of_char (sextet_char i) :: nat) =
     (if i < 26 then 65 + i else if i < 52 then 71 + i else if i < 62 then i - 4
      else if i = 62 then 43 else 47)"
  by (auto simp: sextet_char_def)

lemma sextet_char_not_pad: "i < 64 \<Longrightarrow> sextet_char i \<noteq> CHR ''=''"
proof
  assume i: "i < 64" and eq: "sextet_char i = CHR ''=''"
  have "(of_char (sextet_char i) :: nat) = 61" by (simp add: eq)
  with i show False by (simp add: of_char_sextet_char split: if_splits)
qed

lemma sextet_char_not_ws: "i < 64 \<Longrightarrow> \<not> ascii_whitespace (sextet_char i)"
  by (auto simp: ascii_whitespace_def of_char_sextet_char)

lemma pad_not_ws: "\<not> ascii_whitespace CHR ''=''"
  by (simp add: ascii_whitespace_def)

lemma sextets_bound: "\<forall>u \<in> set xs. u < 256 \<Longrightarrow> \<forall>i \<in> set (sextets xs). i < 64"
proof (induction xs rule: sextets.induct)
  case (1 a b c rest)
  then have "a < 256" "b < 256" "c < 256" and r: "\<forall>i \<in> set (sextets rest). i < 64" by simp_all
  then have "a * 65536 + b * 256 + c < 16777216" by linarith
  then have "(a * 65536 + b * 256 + c) div 262144 < 64" by simp
  with r show ?case by (simp add: Let_def)
next
  case (2 a b)
  then have "a < 256" "b < 256" by simp_all
  then have "a * 256 + b < 65536" by linarith
  then have "(a * 256 + b) * 4 div 4096 < 64" by simp
  then show ?case by (simp add: Let_def)
next
  case (3 a)
  then have "a < 256" by simp
  then have "a * 16 div 64 < 64" by simp
  then show ?case by (simp add: Let_def)
qed simp

lemma padding_simps:
  "padding (a # b # c # rest) = padding rest"
  "padding [a, b] = ''=''"
  "padding [a] = ''==''"
  "padding [] = []"
proof -
  have e3: "length (a # b # c # rest) = 3 + length rest" by simp
  show "padding (a # b # c # rest) = padding rest"
    unfolding padding_def e3 by (simp only: mod_add_self1)
  have e2: "length [a, b] = 2" by simp
  show "padding [a, b] = ''=''"
    unfolding padding_def e2 by simp
  have e1: "length [a] = 1" by simp
  show "padding [a] = ''==''"
    unfolding padding_def e1 by (simp add: numeral_2_eq_2)
  show "padding [] = []"
    by (simp add: padding_def)
qed

lemma base64_chars_split: "base64_chars xs = map sextet_char (sextets xs) @ padding xs"
  by (induction xs rule: sextets.induct) (simp_all add: Let_def padding_simps)

lemma length_base64_chars: "length (base64_chars xs) mod 4 = 0"
proof (induction xs rule: base64_chars.induct)
  case (1 a b c rest)
  have "length (base64_chars (a # b # c # rest)) = 4 + length (base64_chars rest)"
    by (simp add: Let_def)
  with 1 show ?case by (simp only: mod_add_self1)
next
  case (2 a b)
  have "length (base64_chars [a, b]) = 4" by (simp add: Let_def)
  then show ?case by (simp only: mod_self)
next
  case (3 a)
  have "length (base64_chars [a]) = 4" by (simp add: Let_def)
  then show ?case by (simp only: mod_self)
next
  case 4
  show ?case by simp
qed

lemma length_sextets: "length (sextets xs) mod 4 \<noteq> 1"
proof (induction xs rule: sextets.induct)
  case (1 a b c rest)
  then have ih: "length (sextets rest) mod 4 \<noteq> 1" by simp
  have e: "length (sextets (a # b # c # rest)) = 4 + length (sextets rest)"
    by (simp add: Let_def)
  show ?case unfolding e using ih by simp
next
  case (2 a b)
  have e: "length (sextets [a, b]) = 3" by (simp add: Let_def)
  show ?case unfolding e by simp
next
  case (3 a)
  have e: "length (sextets [a]) = 2" by (simp add: Let_def)
  show ?case unfolding e by simp
next
  case 4
  show ?case by simp
qed

lemma replicate_lt3:
  assumes "k < (3::nat)"
  shows "replicate k c = [] \<or> replicate k c = [c] \<or> replicate k c = [c, c]"
proof -
  from assms have "k = 0 \<or> k = 1 \<or> k = 2" by linarith
  then show ?thesis by (auto simp: numeral_2_eq_2)
qed

lemma padding_cases: "padding xs = [] \<or> padding xs = ''='' \<or> padding xs = ''==''"
  unfolding padding_def by (rule replicate_lt3) simp

lemma bits_to_units_sextets: "\<forall>u \<in> set xs. u < 256 \<Longrightarrow> bits_to_units (sextets xs) = xs"
proof (induction xs rule: sextets.induct)
  case (1 a b c rest)
  then have abc: "a < 256" "b < 256" "c < 256" and r: "bits_to_units (sextets rest) = rest"
    by simp_all
  show ?case
    by (simp only: sextets.simps bits_to_units.simps Let_def recombine4 split3 [OF abc] r)
next
  case (2 a b)
  then have ab: "a < 256" "b < 256" by simp_all
  have d: "(a * 256 + b) * 4 div 4 = a * 256 + b" by simp
  show ?case
    by (simp only: sextets.simps bits_to_units.simps Let_def recombine3 d split2 [OF ab])
next
  case (3 a)
  have d: "a * 16 div 16 = a" by simp
  show ?case
    by (simp only: sextets.simps bits_to_units.simps Let_def recombine2 d)
qed simp

lemma sextets_of_map: "\<forall>i \<in> set js. i < 64 \<Longrightarrow> sextets_of (map sextet_char js) = Some js"
  by (induction js) (simp_all add: char_sextet_inverse)

lemma strip_padding_base64:
  assumes "\<forall>i \<in> set js. i < 64" and "length (map sextet_char js @ p) mod 4 = 0"
    and "p = [] \<or> p = ''='' \<or> p = ''==''"
  shows "strip_padding (map sextet_char js @ p) = map sextet_char js"
proof -
  have nl: "js \<noteq> [] \<Longrightarrow> last (map sextet_char js) \<noteq> CHR ''=''"
    using assms(1) by (simp add: last_map sextet_char_not_pad)
  from assms(3) consider "p = []" | "p = ''=''" | "p = ''==''" by blast
  then show ?thesis
  proof cases
    case 1
    then show ?thesis using nl by (auto simp: strip_padding_def)
  next
    case 2
    with assms(2) have "js \<noteq> []" by auto
    with 2 nl assms(2) show ?thesis by (simp add: strip_padding_def butlast_append)
  next
    case 3
    then show ?thesis using assms(2) by (simp add: strip_padding_def butlast_append)
  qed
qed

lemma atob_base64_chars:
  assumes "\<forall>u \<in> set xs. u < 256"
  shows "atob (base64_chars xs) = Inr xs"
proof -
  let ?S = "map sextet_char (sextets xs)"
  have b: "\<forall>i \<in> set (sextets xs). i < 64" using assms by (rule sextets_bound)
  have f: "filter (\<lambda>c. \<not> ascii_whitespace c) (base64_chars xs) = base64_chars xs"
    using b padding_cases [of xs]
    by (auto simp: base64_chars_split filter_id_conv sextet_char_not_ws pad_not_ws)
  have l: "length (?S @ padding xs) mod 4 = 0"
    using length_base64_chars [of xs] by (simp only: base64_chars_split)
  have s: "strip_padding (base64_chars xs) = ?S"
    unfolding base64_chars_split using b l padding_cases by (rule strip_padding_base64)
  have n1: "length ?S mod 4 \<noteq> 1" using length_sextets [of xs] by simp
  show ?thesis
    using n1 by (simp add: atob_def f s sextets_of_map [OF b] bits_to_units_sextets [OF assms])
qed

lemma encode_binary:
  "foldl (\<lambda>binary i. binary @ [fromCharCode (bytes ! i)]) acc [0..<length bytes]
     = acc @ map fromCharCode bytes"
proof -
  have "foldl (\<lambda>binary i. binary @ [fromCharCode (bytes ! i)]) acc ns
          = acc @ map (\<lambda>i. fromCharCode (bytes ! i)) ns" for ns
    by (induction ns arbitrary: acc) simp_all
  moreover have "map (\<lambda>i. fromCharCode (bytes ! i)) [0..<length bytes] = map fromCharCode bytes"
    by (rule nth_equalityI) simp_all
  ultimately show ?thesis by simp
qed

lemma decode_encode: "\<exists>t. encode b = Inr t \<and> decode t = Inr b"
proof -
  let ?u = "map fromCharCode b"
  have "unat x < 256" for x :: byte
    using unsigned_less [of x] by simp
  then have u: "\<forall>u \<in> set ?u. u < 256"
    by (simp add: fromCharCode_def)
  then have nb: "\<not> (\<exists>u \<in> set ?u. 255 < u)" by fastforce
  have e: "encode b = Inr (base64_chars ?u)"
    using nb encode_binary [of b "[]"] by (simp add: encode_def btoa_def Let_def)
  have "map (\<lambda>i. (of_nat (?u ! i) :: byte)) [0..<length ?u] = map of_nat ?u"
    by (rule nth_equalityI) simp_all
  then have d: "decode (base64_chars ?u) = Inr b"
    by (simp add: decode_def atob_base64_chars [OF u] Let_def fromCharCode_def comp_def)
  from e d show ?thesis by blast
qed

text \<open>
  Claim C8. For every byte sequence \<open>b\<close>, \<open>encode\<close> returns a transport text (it
  does not throw), and \<open>decode\<close> of that text returns exactly \<open>b\<close>.
\<close>

theorem decode_encode_roundtrip: "\<exists>t. encode b = Inr t \<and> decode t = Inr b"
  by (rule decode_encode)

section \<open>Round trip of the PCM codec\<close>

lemma int16_bytes_nth:
  "i < length ws \<Longrightarrow> concat (map int16_bytes ws) ! (2 * i) = of_nat (unat (ws ! i) mod 256)"
  "i < length ws \<Longrightarrow> concat (map int16_bytes ws) ! (2 * i + 1) = of_nat (unat (ws ! i) div 256)"
proof (induction ws arbitrary: i)
  case Nil
  { case 1 then show ?case by simp }
  { case 2 then show ?case by simp }
next
  case (Cons w ws)
  { case 1 then show ?case using Cons.IH(1) [of "i - 1"] by (cases i) (simp_all add: int16_bytes_def) }
  { case 2 then show ?case using Cons.IH(2) [of "i - 1"] by (cases i) (simp_all add: int16_bytes_def) }
qed

lemma length_int16_bytes: "length (concat (map int16_bytes ws)) = 2 * length ws"
  by (induction ws) (simp_all add: int16_bytes_def)

lemma int16_recombine:
  "(of_nat (unat (of_nat (unat w mod 256) :: byte) + 256 * unat (of_nat (unat w div 256) :: byte)) :: 16 word) = w"
proof -
  have lt: "unat w < 65536" using unsigned_less [of w] by simp
  then have d: "unat w div 256 < 256" by simp
  have lo: "unat (of_nat (unat w mod 256) :: byte) = unat w mod 256"
    by (simp add: unat_of_nat)
  have hi: "unat (of_nat (unat w div 256) :: byte) = unat w div 256"
    using d by (simp add: unat_of_nat)
  have "unat w mod 256 + 256 * (unat w div 256) = unat w" by simp
  then show ?thesis by (simp only: lo hi) simp
qed

lemma Int16Array_int16_bytes: "Int16Array (concat (map int16_bytes ws)) = Inr ws"
proof -
  let ?C = "concat (map int16_bytes ws)"
  let ?f = "\<lambda>i. (of_nat (unat (?C ! (2 * i)) + 256 * unat (?C ! (2 * i + 1))) :: 16 word)"
  have pt: "?f i = ws ! i" if "i < length ws" for i
    using that by (simp only: int16_bytes_nth int16_recombine)
  have "map ?f [0..<length ws] = ws"
  proof (rule nth_equalityI)
    show "length (map ?f [0..<length ws]) = length ws" by simp
  next
    fix i assume "i < length (map ?f [0..<length ws])"
    then have i: "i < length ws" by simp
    then have "map ?f [0..<length ws] ! i = ?f ([0..<length ws] ! i)"
      by (intro nth_map) simp
    also have "[0..<length ws] ! i = i" using i by simp
    finally show "map ?f [0..<length ws] ! i = ws ! i" using pt [OF i] by (simp only:)
  qed
  moreover have "length ?C div 2 = length ws" "\<not> odd (length ?C)"
    by (simp_all add: length_int16_bytes)
  ultimately show ?thesis by (simp only: Int16Array_def if_False)
qed

lemma sint_ToInt16:
  assumes "- 32768 \<le> y" "y < 32768"
  shows "sint (ToInt16 y) = (if 0 \<le> y then \<lfloor>y\<rfloor> else \<lceil>y\<rceil>)"
proof -
  let ?t = "if 0 \<le> y then \<lfloor>y\<rfloor> else \<lceil>y\<rceil>"
  have lo: "- 32768 \<le> ?t" using assms by (auto simp: le_floor_iff le_ceiling_iff)
  have hi: "?t < 32768" using assms by (auto simp: floor_less_iff ceiling_less_iff)
  have "sint (word_of_int ?t :: 16 word) = signed_take_bit 15 ?t"
    by (simp add: sint_sbintrunc')
  also have "\<dots> = ?t"
    using lo hi by (intro signed_take_bit_int_eq_self) simp_all
  finally show ?thesis by (simp add: ToInt16_def)
qed

lemma quantize_close:
  assumes "- 1 \<le> x" "x < (1::real)"
  shows "\<bar>real_of_int (sint (ToInt16 (x * 32768))) / 32768 - x\<bar> < 1 / 32768"
proof -
  let ?y = "x * 32768"
  have r: "- 32768 \<le> ?y" "?y < 32768" using assms by simp_all
  have "\<bar>real_of_int (if 0 \<le> ?y then \<lfloor>?y\<rfloor> else \<lceil>?y\<rceil>) - ?y\<bar> < 1"
    by (auto; linarith)
  then have "\<bar>real_of_int (sint (ToInt16 ?y)) - ?y\<bar> < 1"
    by (simp only: sint_ToInt16 [OF r])
  then show ?thesis by (simp add: field_simps abs_if split: if_splits)
qed


lemma map_index: "map (\<lambda>i. f (xs ! i)) [0..<length xs] = map f xs"
  by (rule nth_equalityI) simp_all

lemma decodeAudioData_int16_bytes:
  assumes "ws \<noteq> []"
  shows "decodeAudioData (concat (map int16_bytes ws)) ctx 24000 1
           = Inr \<lparr>numberOfChannels = 1, frames = length ws, sampleRate = 24000,
                   channelData = [map (\<lambda>w. real_of_int (sint w) / 32768) ws]\<rparr>"
proof -
  have buf: "createBuffer 1 (length ws) 24000
               = Inr \<lparr>numberOfChannels = 1, frames = length ws, sampleRate = 24000,
                       channelData = replicate 1 (replicate (length ws) 0)\<rparr>"
    using assms by (simp add: createBuffer_def)
  have one: "[0..<1] = [0]" by simp
  have ch: "map (\<lambda>i. real_of_int (sint (ws ! (i * 1 + 0))) / 32768) [0..<length ws]
              = map (\<lambda>w. real_of_int (sint w) / 32768) ws"
    using map_index [of "\<lambda>w. real_of_int (sint w) / 32768" ws] by simp
  show ?thesis
    by (simp only: decodeAudioData_def Int16Array_int16_bytes sum.case Let_def div_by_1 buf one
          list.map ch) simp
qed

lemma createBlob_eq:
  "\<exists>t. createBlob samples = Inr \<lparr>data = Some t, mimeType = Some ''audio/pcm;rate=16000''\<rparr>
     \<and> decode t = Inr (concat (map int16_bytes (map (\<lambda>x. ToInt16 (x * 32768)) samples)))"
proof -
  let ?ws = "map (\<lambda>x. ToInt16 (x * 32768)) samples"
  have ws: "map (\<lambda>i. ToInt16 (samples ! i * 32768)) [0..<length samples] = ?ws"
    by (rule map_index)
  obtain t where t: "encode (concat (map int16_bytes ?ws)) = Inr t"
    "decode t = Inr (concat (map int16_bytes ?ws))"
    using decode_encode by blast
  have "createBlob samples = Inr \<lparr>data = Some t, mimeType = Some ''audio/pcm;rate=16000''\<rparr>"
    by (simp only: createBlob_def Let_def ws t(1) sum.case)
  with t(2) show ?thesis by blast
qed

lemma pcm_roundtrip_eq:
  assumes "samples \<noteq> []"
  shows "pcm_roundtrip ctx samples
           = Inr (map (\<lambda>x. real_of_int (sint (ToInt16 (x * 32768))) / 32768) samples)"
proof -
  let ?ws = "map (\<lambda>x. ToInt16 (x * 32768)) samples"
  obtain t where t:
    "createBlob samples = Inr \<lparr>data = Some t, mimeType = Some ''audio/pcm;rate=16000''\<rparr>"
    "decode t = Inr (concat (map int16_bytes ?ws))"
    using createBlob_eq by blast
  have ne: "?ws \<noteq> []" using assms by simp
  have m: "map (\<lambda>w. real_of_int (sint w) / 32768) ?ws
          = map (\<lambda>x. real_of_int (sint (ToInt16 (x * 32768))) / 32768) samples"
    by (simp only: map_map comp_def)
  show ?thesis
    by (simp only: pcm_roundtrip_def t sum.case option.case Blob.select_convs
          decodeAudioData_int16_bytes [OF ne] AudioBuffer.select_convs nth_Cons_0 m)
qed

lemma sint_ToInt16_full_scale: "sint (ToInt16 (1 * 32768)) = - 32768"
  by (simp add: ToInt16_def)

text \<open>
  Claim C6, as the code has it. For every non-empty sample sequence with all values in
  \<open>[-1, 1)\<close>, encoding with \<open>createBlob\<close> and decoding with \<open>decode\<close> and
  \<open>decodeAudioData\<close> succeeds and yields a sequence of the same length that differs from the
  input by less than one quantization step \<open>1 / 32768\<close> at every index.
\<close>

theorem pcm_roundtrip_within_step:
  assumes "samples \<noteq> []" and "\<forall>x \<in> set samples. - 1 \<le> x \<and> x < 1"
  shows "\<exists>out. pcm_roundtrip ctx samples = Inr out \<and> length out = length samples
           \<and> (\<forall>i < length samples. \<bar>out ! i - samples ! i\<bar> < 1 / 32768)"
proof -
  let ?out = "map (\<lambda>x. real_of_int (sint (ToInt16 (x * 32768))) / 32768) samples"
  have "\<bar>?out ! i - samples ! i\<bar> < 1 / 32768" if "i < length samples" for i
  proof -
    from that assms(2) have "- 1 \<le> samples ! i" "samples ! i < 1" by simp_all
    then show ?thesis using that by (simp only: nth_map quantize_close)
  qed
  then show ?thesis using pcm_roundtrip_eq [OF assms(1), of ctx] by simp
qed

theorem pcm_roundtrip_within_step_witness:
  "[1 / 2, - 1] \<noteq> ([] :: real list)
   \<and> - 1 \<le> (1 / 2 :: real) \<and> (1 / 2 :: real) < 1 \<and> - 1 \<le> (- 1 :: real) \<and> (- 1 :: real) < 1
   \<and> (\<exists>out. pcm_roundtrip Running [1 / 2, - 1] = Inr out \<and> length out = 2
           \<and> \<bar>out ! 0 - 1 / 2\<bar> < 1 / 32768 \<and> \<bar>out ! 1 - (- 1)\<bar> < 1 / 32768)"
proof -
  have h: "[1 / 2, - 1] \<noteq> ([] :: real list)" "\<forall>x \<in> set [1 / 2, - 1 :: real]. - 1 \<le> x \<and> x < 1"
    by simp_all
  from pcm_roundtrip_within_step [OF h, of Running] obtain out where
    o: "pcm_roundtrip Running [1 / 2, - 1] = Inr out" "length out = length [1 / 2, - 1 :: real]"
       "\<forall>i < length [1 / 2, - 1 :: real]. \<bar>out ! i - [1 / 2, - 1] ! i\<bar> < 1 / 32768"
    by blast
  from o(3) have "\<bar>out ! 0 - 1 / 2\<bar> < 1 / 32768" "\<bar>out ! 1 - (- 1)\<bar> < 1 / 32768"
    by auto
  with o(1,2) show ?thesis by auto
qed

text \<open>
  Claim C6 as stated fails at the sample \<open>1\<close>, which lies in \<open>[-1, 1]\<close>: it is scaled to
  32768, wraps to \<open>-32768\<close> in the \<open>Int16Array\<close> and decodes to \<open>-1\<close>.
\<close>

theorem pcm_roundtrip_full_scale_wraps:
  "pcm_roundtrip Running [1] = Inr [- 1] \<and> \<not> \<bar>(- 1 :: real) - 1\<bar> \<le> 1 / 32768"
proof -
  have e: "pcm_roundtrip Running [1]
             = Inr (map (\<lambda>x. real_of_int (sint (ToInt16 (x * 32768))) / 32768) [1])"
    by (rule pcm_roundtrip_eq) simp
  have "map (\<lambda>x. real_of_int (sint (ToInt16 (x * 32768))) / 32768) [1] = [- 1]"
    by (simp only: list.map sint_ToInt16_full_scale) simp
  with e show ?thesis by simp
qed

section \<open>Teardown and interruption\<close>

lemma emit_fields [simp]:
  "status (emit es s) = status s"
  "conversation (emit es s) = conversation s"
  "error (emit es s) = error s"
  "sessionPromiseRef (emit es s) = sessionPromiseRef s"
  "inputAudioContextRef (emit es s) = inputAudioContextRef s"
  "outputAudioContextRef (emit es s) = outputAudioContextRef s"
  "microphoneStreamRef (emit es s) = microphoneStreamRef s"
  "scriptProcessorRef (emit es s) = scriptProcessorRef s"
  "currentInputTranscriptionRef (emit es s) = currentInputTranscriptionRef s"
  "currentOutputTranscriptionRef (emit es s) = currentOutputTranscriptionRef s"
  "nextStartTimeRef (emit es s) = nextStartTimeRef s"
  "audioSourcesRef (emit es s) = audioSourcesRef s"
  "audioBuffers (emit es s) = audioBuffers s"
  "nextNodeId (emit es s) = nextNodeId s"
  "nextSessionId (emit es s) = nextSessionId s"
  "trace (emit es s) = trace s @ es"
  by (simp_all add: emit_def)

lemma emit_Nil [simp]: "emit [] s = s"
  by (simp add: emit_def)

lemma stopMicrophone_fields [simp]:
  "status (stopMicrophone s) = status s"
  "conversation (stopMicrophone s) = conversation s"
  "error (stopMicrophone s) = error s"
  "sessionPromiseRef (stopMicrophone s) = sessionPromiseRef s"
  "inputAudioContextRef (stopMicrophone s) = inputAudioContextRef s"
  "outputAudioContextRef (stopMicrophone s) = outputAudioContextRef s"
  "microphoneStreamRef (stopMicrophone s) = None"
  "scriptProcessorRef (stopMicrophone s) = scriptProcessorRef s"
  "currentInputTranscriptionRef (stopMicrophone s) = currentInputTranscriptionRef s"
  "currentOutputTranscriptionRef (stopMicrophone s) = currentOutputTranscriptionRef s"
  "nextStartTimeRef (stopMicrophone s) = nextStartTimeRef s"
  "audioSourcesRef (stopMicrophone s) = audioSourcesRef s"
  "audioBuffers (stopMicrophone s) = audioBuffers s"
  "nextNodeId (stopMicrophone s) = nextNodeId s"
  "nextSessionId (stopMicrophone s) = nextSessionId s"
  by (simp_all add: stopMicrophone_def Let_def split: option.splits MediaStream.splits)

lemma disconnectProcessor_fields [simp]:
  "status (disconnectProcessor s) = status s"
  "conversation (disconnectProcessor s) = conversation s"
  "error (disconnectProcessor s) = error s"
  "sessionPromiseRef (disconnectProcessor s) = sessionPromiseRef s"
  "inputAudioContextRef (disconnectProcessor s) = inputAudioContextRef s"
  "outputAudioContextRef (disconnectProcessor s) = outputAudioContextRef s"
  "microphoneStreamRef (disconnectProcessor s) = microphoneStreamRef s"
  "scriptProcessorRef (disconnectProcessor s) = None"
  "currentInputTranscriptionRef (disconnectProcessor s) = currentInputTranscriptionRef s"
  "currentOutputTranscriptionRef (disconnectProcessor s) = currentOutputTranscriptionRef s"
  "nextStartTimeRef (disconnectProcessor s) = nextStartTimeRef s"
  "audioSourcesRef (disconnectProcessor s) = audioSourcesRef s"
  "audioBuffers (disconnectProcessor s) = audioBuffers s"
  "nextNodeId (disconnectProcessor s) = nextNodeId s"
  "nextSessionId (disconnectProcessor s) = nextSessionId s"
  by (simp_all add: disconnectProcessor_def Let_def split: option.splits MediaStream.splits)

lemma closeInputContext_fields [simp]:
  "status (closeInputContext s) = status s"
  "conversation (closeInputContext s) = conversation s"
  "error (closeInputContext s) = error s"
  "sessionPromiseRef (closeInputContext s) = sessionPromiseRef s"
  "inputAudioContextRef (closeInputContext s) = map_option (\<lambda>st. Closed) (inputAudioContextRef s)"
  "outputAudioContextRef (closeInputContext s) = outputAudioContextRef s"
  "microphoneStreamRef (closeInputContext s) = microphoneStreamRef s"
  "scriptProcessorRef (closeInputContext s) = scriptProcessorRef s"
  "currentInputTranscriptionRef (closeInputContext s) = currentInputTranscriptionRef s"
  "currentOutputTranscriptionRef (closeInputContext s) = currentOutputTranscriptionRef s"
  "nextStartTimeRef (closeInputContext s) = nextStartTimeRef s"
  "audioSourcesRef (closeInputContext s) = audioSourcesRef s"
  "audioBuffers (closeInputContext s) = audioBuffers s"
  "nextNodeId (closeInputContext s) = nextNodeId s"
  "nextSessionId (closeInputContext s) = nextSessionId s"
  by (simp_all add: closeInputContext_def Let_def split: option.splits MediaStream.splits)

lemma closeOutputContext_fields [simp]:
  "status (closeOutputContext s) = status s"
  "conversation (closeOutputContext s) = conversation s"
  "error (closeOutputContext s) = error s"
  "sessionPromiseRef (closeOutputContext s) = sessionPromiseRef s"
  "inputAudioContextRef (closeOutputContext s) = inputAudioContextRef s"
  "outputAudioContextRef (closeOutputContext s) = map_option (\<lambda>st. Closed) (outputAudioContextRef s)"
  "microphoneStreamRef (closeOutputContext s) = microphoneStreamRef s"
  "scriptProcessorRef (closeOutputContext s) = scriptProcessorRef s"
  "currentInputTranscriptionRef (closeOutputContext s) = currentInputTranscriptionRef s"
  "currentOutputTranscriptionRef (closeOutputContext s) = currentOutputTranscriptionRef s"
  "nextStartTimeRef (closeOutputContext s) = nextStartTimeRef s"
  "audioSourcesRef (closeOutputContext s) = audioSourcesRef s"
  "audioBuffers (closeOutputContext s) = audioBuffers s"
  "nextNodeId (closeOutputContext s) = nextNodeId s"
  "nextSessionId (closeOutputContext s) = nextSessionId s"
  by (simp_all add: closeOutputContext_def Let_def split: option.splits MediaStream.splits)

lemma stopSources_fields [simp]:
  "status (stopSources s) = status s"
  "conversation (stopSources s) = conversation s"
  "error (stopSources s) = error s"
  "sessionPromiseRef (stopSources s) = sessionPromiseRef s"
  "inputAudioContextRef (stopSources s) = inputAudioContextRef s"
  "outputAudioContextRef (stopSources s) = outputAudioContextRef s"
  "microphoneStreamRef (stopSources s) = microphoneStreamRef s"
  "scriptProcessorRef (stopSources s) = scriptProcessorRef s"
  "currentInputTranscriptionRef (stopSources s) = currentInputTranscriptionRef s"
  "currentOutputTranscriptionRef (stopSources s) = currentOutputTranscriptionRef s"
  "nextStartTimeRef (stopSources s) = 0"
  "audioSourcesRef (stopSources s) = []"
  "audioBuffers (stopSources s) = audioBuffers s"
  "nextNodeId (stopSources s) = nextNodeId s"
  "nextSessionId (stopSources s) = nextSessionId s"
  by (simp_all add: stopSources_def Let_def split: option.splits MediaStream.splits)

lemma closeSession_fields [simp]:
  "status (closeSession s) = status s"
  "conversation (closeSession s) = conversation s"
  "error (closeSession s) = error s"
  "sessionPromiseRef (closeSession s) = None"
  "inputAudioContextRef (closeSession s) = inputAudioContextRef s"
  "outputAudioContextRef (closeSession s) = outputAudioContextRef s"
  "microphoneStreamRef (closeSession s) = microphoneStreamRef s"
  "scriptProcessorRef (closeSession s) = scriptProcessorRef s"
  "currentInputTranscriptionRef (closeSession s) = currentInputTranscriptionRef s"
  "currentOutputTranscriptionRef (closeSession s) = currentOutputTranscriptionRef s"
  "nextStartTimeRef (closeSession s) = nextStartTimeRef s"
  "audioSourcesRef (closeSession s) = audioSourcesRef s"
  "audioBuffers (closeSession s) = audioBuffers s"
  "nextNodeId (closeSession s) = nextNodeId s"
  "nextSessionId (closeSession s) = nextSessionId s"
  by (simp_all add: closeSession_def Let_def split: option.splits MediaStream.splits)

lemma cleanup_fields [simp]:
  "status (cleanup s) = IDLE"
  "conversation (cleanup s) = conversation s"
  "error (cleanup s) = None"
  "sessionPromiseRef (cleanup s) = None"
  "inputAudioContextRef (cleanup s) = map_option (\<lambda>st. Closed) (inputAudioContextRef s)"
  "outputAudioContextRef (cleanup s) = map_option (\<lambda>st. Closed) (outputAudioContextRef s)"
  "microphoneStreamRef (cleanup s) = None"
  "scriptProcessorRef (cleanup s) = None"
  "currentInputTranscriptionRef (cleanup s) = currentInputTranscriptionRef s"
  "currentOutputTranscriptionRef (cleanup s) = currentOutputTranscriptionRef s"
  "nextStartTimeRef (cleanup s) = 0"
  "audioSourcesRef (cleanup s) = []"
  "audioBuffers (cleanup s) = audioBuffers s"
  "nextNodeId (cleanup s) = nextNodeId s"
  "nextSessionId (cleanup s) = nextSessionId s"
  by (simp_all add: cleanup_def Let_def )

lemma cleanup_trace:
  "trace (cleanup s) =
     trace s
     @ (case microphoneStreamRef s of Some (MediaStream n) \<Rightarrow> replicate n TrackStop | None \<Rightarrow> [])
     @ (case scriptProcessorRef s of Some u \<Rightarrow> [ProcessorDisconnect] | None \<Rightarrow> [])
     @ (case inputAudioContextRef s of
          Some st \<Rightarrow> if st \<noteq> Closed then [CloseInputContext] else [] | None \<Rightarrow> [])
     @ (case outputAudioContextRef s of
          Some st \<Rightarrow> if st \<noteq> Closed then [CloseOutputContext] else [] | None \<Rightarrow> [])
     @ map (\<lambda>source. SourceStop (node_id source)) (audioSourcesRef s)
     @ (case sessionPromiseRef s of Some session \<Rightarrow> [SessionClose session] | None \<Rightarrow> [])"
proof -
  have 1: "trace (stopMicrophone s) = trace s
     @ (case microphoneStreamRef s of Some (MediaStream n) \<Rightarrow> replicate n TrackStop | None \<Rightarrow> [])" for s
    by (simp add: stopMicrophone_def split: option.splits MediaStream.splits)
  have 2: "trace (disconnectProcessor s) = trace s
     @ (case scriptProcessorRef s of Some u \<Rightarrow> [ProcessorDisconnect] | None \<Rightarrow> [])" for s
    by (simp add: disconnectProcessor_def split: option.splits)
  have 3: "trace (closeInputContext s) = trace s
     @ (case inputAudioContextRef s of
          Some st \<Rightarrow> if st \<noteq> Closed then [CloseInputContext] else [] | None \<Rightarrow> [])" for s
    by (simp add: closeInputContext_def split: option.splits)
  have 4: "trace (closeOutputContext s) = trace s
     @ (case outputAudioContextRef s of
          Some st \<Rightarrow> if st \<noteq> Closed then [CloseOutputContext] else [] | None \<Rightarrow> [])" for s
    by (simp add: closeOutputContext_def split: option.splits)
  have 5: "trace (stopSources s) = trace s
     @ map (\<lambda>source. SourceStop (node_id source)) (audioSourcesRef s)" for s
    by (simp add: stopSources_def Let_def)
  have 6: "trace (closeSession s) = trace s
     @ (case sessionPromiseRef s of Some session \<Rightarrow> [SessionClose session] | None \<Rightarrow> [])" for s
    by (simp add: closeSession_def Let_def split: option.splits)
  show ?thesis
    by (simp add: cleanup_def Let_def 1 2 3 4 5 6)
qed

lemma cleanup_idem: "cleanup (cleanup s) = cleanup s"
proof (rule Storyteller.equality)
  show "trace (cleanup (cleanup s)) = trace (cleanup s)"
    by (simp add: cleanup_trace [of "cleanup s"] split: option.splits)
qed (simp_all add: option.map_comp comp_def)

lemma cleanup_initial: "cleanup initial = initial"
  by (simp add: cleanup_def initial_def Let_def stopMicrophone_def disconnectProcessor_def
      closeInputContext_def closeOutputContext_def stopSources_def closeSession_def)

text \<open>
  Claim C9. \<open>stopSession\<close> is total: every statement of \<open>cleanup\<close> is guarded, so the model
  has no exception outcome for it. After one call and after a second call in a row, Status is
  IDLE, the error message is null, the Active Playback Set is empty and the cursor is 0; the
  second call changes nothing; and on the initial state, where no session was ever started
  and every ref is null, the call changes nothing at all.
\<close>

theorem stopSession_idempotent:
  "status (stopSession s) = IDLE \<and> error (stopSession s) = None
   \<and> audioSourcesRef (stopSession s) = [] \<and> nextStartTimeRef (stopSession s) = 0
   \<and> status (stopSession (stopSession s)) = IDLE \<and> error (stopSession (stopSession s)) = None
   \<and> audioSourcesRef (stopSession (stopSession s)) = []
   \<and> nextStartTimeRef (stopSession (stopSession s)) = 0
   \<and> stopSession (stopSession s) = stopSession s
   \<and> stopSession initial = initial"
  by (simp add: stopSession_def cleanup_idem cleanup_initial)


lemma interrupted_eq: "handleMessage now interruptedMessage s = stopSources s"
  by (simp add: handleMessage_def handleMessage_try_def interruptedMessage_def noContent_def
      toolCallStep_def transcriptionStep_def turnCompleteStep_def audioStep_def
      base64Audio_of_def interruptedStep_def)

text \<open>
  Claim C7. For every prior state, handling the interrupted message leaves the Active
  Playback Set empty and the cursor at 0, stops exactly the sources that were in flight, and
  leaves Status, the error message, the conversation log and both accumulators as they
  were.
\<close>

theorem interrupted_clears_playback:
  "audioSourcesRef (handleMessage now interruptedMessage s) = []
   \<and> nextStartTimeRef (handleMessage now interruptedMessage s) = 0
   \<and> status (handleMessage now interruptedMessage s) = status s
   \<and> error (handleMessage now interruptedMessage s) = error s
   \<and> conversation (handleMessage now interruptedMessage s) = conversation s
   \<and> currentInputTranscriptionRef (handleMessage now interruptedMessage s)
       = currentInputTranscriptionRef s
   \<and> currentOutputTranscriptionRef (handleMessage now interruptedMessage s)
       = currentOutputTranscriptionRef s
   \<and> new_effects s (handleMessage now interruptedMessage s)
       = map (\<lambda>source. SourceStop (node_id source)) (audioSourcesRef s)"
  by (simp add: interrupted_eq new_effects_def stopSources_def Let_def)

section \<open>Message handling\<close>

subsection \<open>Tool calls\<close>

lemma playSound_fields [simp]:
  "status (playSound n ctx s) = status s"
  "conversation (playSound n ctx s) = conversation s"
  "error (playSound n ctx s) = error s"
  "sessionPromiseRef (playSound n ctx s) = sessionPromiseRef s"
  "inputAudioContextRef (playSound n ctx s) = inputAudioContextRef s"
  "outputAudioContextRef (playSound n ctx s) = outputAudioContextRef s"
  "microphoneStreamRef (playSound n ctx s) = microphoneStreamRef s"
  "scriptProcessorRef (playSound n ctx s) = scriptProcessorRef s"
  "currentInputTranscriptionRef (playSound n ctx s) = currentInputTranscriptionRef s"
  "currentOutputTranscriptionRef (playSound n ctx s) = currentOutputTranscriptionRef s"
  "nextStartTimeRef (playSound n ctx s) = nextStartTimeRef s"
  "audioSourcesRef (playSound n ctx s) = audioSourcesRef s"
  "audioBuffers (playSound n ctx s) = audioBuffers s"
  "nextNodeId (playSound n ctx s) = nextNodeId s"
  "nextSessionId (playSound n ctx s) = nextSessionId s"
  by (simp_all add: playSound_def)

lemma playSound_trace:
  "trace (playSound n ctx s) =
     trace s @ [if n \<in> set (audioBuffers s) \<and> ctx = Running then PlaySound n else ConsoleWarn]"
  by (simp add: playSound_def)

lemma handleFunctionCalls_frame:
  "status (state_of (handleFunctionCalls fcs s)) = status s"
  "conversation (state_of (handleFunctionCalls fcs s)) = conversation s"
  "error (state_of (handleFunctionCalls fcs s)) = error s"
  "currentInputTranscriptionRef (state_of (handleFunctionCalls fcs s))
     = currentInputTranscriptionRef s"
  "currentOutputTranscriptionRef (state_of (handleFunctionCalls fcs s))
     = currentOutputTranscriptionRef s"
  "nextStartTimeRef (state_of (handleFunctionCalls fcs s)) = nextStartTimeRef s"
  "audioSourcesRef (state_of (handleFunctionCalls fcs s)) = audioSourcesRef s"
  "outputAudioContextRef (state_of (handleFunctionCalls fcs s)) = outputAudioContextRef s"
  by (induction fcs arbitrary: s;
      simp add: Let_def split: option.splits prod.splits)+

lemma handleFunctionCalls_no_return: "handleFunctionCalls fcs s \<noteq> Return s'"
  by (induction fcs arbitrary: s) (simp_all add: Let_def split: option.splits prod.splits)

lemma toolCallStep_frame:
  "status (state_of (toolCallStep m s)) = status s"
  "conversation (state_of (toolCallStep m s)) = conversation s"
  "error (state_of (toolCallStep m s)) = error s"
  "currentInputTranscriptionRef (state_of (toolCallStep m s)) = currentInputTranscriptionRef s"
  "currentOutputTranscriptionRef (state_of (toolCallStep m s)) = currentOutputTranscriptionRef s"
  "nextStartTimeRef (state_of (toolCallStep m s)) = nextStartTimeRef s"
  "audioSourcesRef (state_of (toolCallStep m s)) = audioSourcesRef s"
  "outputAudioContextRef (state_of (toolCallStep m s)) = outputAudioContextRef s"
  by (simp_all add: toolCallStep_def handleFunctionCalls_frame split: option.splits)

lemma toolCallStep_no_return: "toolCallStep m s \<noteq> Return s'"
  by (simp add: toolCallStep_def handleFunctionCalls_no_return split: option.splits)

lemma playSoundEffect_eq:
  "handleMessage now (playSoundEffectMessage call_id sfx) s =
     (case outputAudioContextRef s of
        None \<Rightarrow> s
      | Some ctx \<Rightarrow>
          (case sessionPromiseRef s of
             None \<Rightarrow> playSound sfx ctx s
           | Some session \<Rightarrow>
               emit [SendToolResponse session (Some call_id) (Some ''playSoundEffect'') ''ok'']
                 (playSound sfx ctx s)))"
  by (simp add: handleMessage_def handleMessage_try_def playSoundEffectMessage_def
      toolCallStep_def transcriptionStep_def turnCompleteStep_def audioStep_def
      base64Audio_of_def interruptedStep_def Let_def split: option.splits)

text \<open>
  Claim C2, as the code has it. For a tool-call message naming \<open>playSoundEffect\<close> with an
  id and a sound argument: when an output context exists and a session promise is held,
  handling it chains exactly one acknowledgment on that promise, carrying the same call id,
  the name and the result ok; when either is missing, no acknowledgment is sent. In every
  case at most one playback is triggered, and only of the named sound.
\<close>

theorem playSoundEffect_acknowledged:
  "(outputAudioContextRef s \<noteq> None \<and> sessionPromiseRef s = Some session \<longrightarrow>
      filter is_ack (new_effects s (handleMessage now (playSoundEffectMessage call_id sfx) s))
        = [SendToolResponse session (Some call_id) (Some ''playSoundEffect'') ''ok''])
   \<and> (outputAudioContextRef s = None \<or> sessionPromiseRef s = None \<longrightarrow>
      filter is_ack (new_effects s (handleMessage now (playSoundEffectMessage call_id sfx) s))
        = [])
   \<and> length (filter is_playback
        (new_effects s (handleMessage now (playSoundEffectMessage call_id sfx) s))) \<le> 1
   \<and> set (filter is_playback
        (new_effects s (handleMessage now (playSoundEffectMessage call_id sfx) s)))
        \<subseteq> {PlaySound sfx}"
  by (auto simp: playSoundEffect_eq new_effects_def playSound_trace split: option.splits)

subsection \<open>Concrete states\<close>

lemma run_Nil [simp]: "run [] s = s"
  by (simp add: run_def)

lemma run_Cons [simp]: "run (e # es) s = run es (fire e s)"
  by (simp add: run_def)

lemma start_initial:
  "startSession okEnv initial =
     initial\<lparr>microphoneStreamRef := Some (MediaStream 1), inputAudioContextRef := Some Running,
             outputAudioContextRef := Some Running,
             audioBuffers := [sparkle, thump, whoosh],
             sessionPromiseRef := Some 0, nextSessionId := 1\<rparr>"
  by (simp add: startSession_def okEnv_def initial_def preloadSounds_def soundLibrary_def Let_def)

lemma liveState_eq:
  "liveState =
     initial\<lparr>status := LISTENING, microphoneStreamRef := Some (MediaStream 1),
             inputAudioContextRef := Some Running, outputAudioContextRef := Some Running,
             scriptProcessorRef := Some (),
             audioBuffers := [sparkle, thump, whoosh],
             sessionPromiseRef := Some 0, nextSessionId := 1\<rparr>"
  unfolding liveState_def run_Cons run_Nil fire.simps start_initial
  by (simp add: onOpen_def initial_def)

lemma liveState_fields [simp]:
  "status liveState = LISTENING"
  "conversation liveState = []"
  "error liveState = None"
  "sessionPromiseRef liveState = Some 0"
  "inputAudioContextRef liveState = Some Running"
  "outputAudioContextRef liveState = Some Running"
  "microphoneStreamRef liveState = Some (MediaStream 1)"
  "scriptProcessorRef liveState = Some ()"
  "currentInputTranscriptionRef liveState = []"
  "currentOutputTranscriptionRef liveState = []"
  "nextStartTimeRef liveState = 0"
  "audioSourcesRef liveState = []"
  "audioBuffers liveState = [sparkle, thump, whoosh]"
  "trace liveState = []"
  "nextNodeId liveState = 0"
  "nextSessionId liveState = 1"
  by (simp_all add: liveState_eq initial_def)

text \<open>
  In the state of an open session the hypotheses hold and the acknowledgment is sent.
\<close>

theorem playSoundEffect_acknowledged_witness:
  "(outputAudioContextRef liveState \<noteq> None \<and> sessionPromiseRef liveState = Some 0)
   \<and> filter is_ack
        (new_effects liveState (handleMessage 0 (playSoundEffectMessage ''call-1'' sparkle) liveState))
       = [SendToolResponse 0 (Some ''call-1'') (Some ''playSoundEffect'') ''ok'']
   \<and> length (filter is_playback
        (new_effects liveState (handleMessage 0 (playSoundEffectMessage ''call-1'' sparkle) liveState)))
       \<le> 1"
  using playSoundEffect_acknowledged [of liveState 0 0 "''call-1''" sparkle] by simp

text \<open>
  Claim C2 as stated fails for a message that arrives after \<open>stopSession\<close>: the session
  promise ref is null and nothing is sent.
\<close>

theorem playSoundEffect_after_stop_unacknowledged:
  "filter is_ack
     (new_effects (stopSession liveState)
        (handleMessage 0 (playSoundEffectMessage ''call-1'' sparkle) (stopSession liveState)))
   = []"
  by (simp add: playSoundEffect_eq new_effects_def stopSession_def playSound_trace)

subsection \<open>Exceptions while handling a message\<close>

lemma handleMessage_throw:
  assumes "handleMessage_try now m s = Throw e s'"
  shows "handleMessage now m s
           = cleanup ((emit [ConsoleError] s')\<lparr>error := Some processingError, status := ERROR\<rparr>)"
  using assms by (simp add: handleMessage_def)

lemma decode_bang: "decode ''!'' = Inl InvalidCharacterError"
  by (simp add: decode_def atob_def strip_padding_def ascii_whitespace_def)

lemma try_bad_audio:
  "handleMessage_try now (audioMessage ''!'') liveState
     = Throw InvalidCharacterError (liveState\<lparr>status := SPEAKING\<rparr>)"
  by (simp add: handleMessage_try_def audioMessage_def noContent_def toolCallStep_def
      transcriptionStep_def turnCompleteStep_def audioStep_def base64Audio_of_def decode_bang
      Let_def)

text \<open>
  Claim C3 at a failing input. In an open session, an audio fragment whose data is not
  base64 makes \<open>atob\<close> throw inside the handler. The exception is caught and the teardown is
  performed, but \<open>cleanup\<close>, called last by the catch block, resets Status to IDLE and the
  error message to null: after the handler Status is not ERROR and no message is held.
\<close>

theorem exception_ends_idle_without_message:
  "handleMessage_try 0 (audioMessage ''!'') liveState
     = Throw InvalidCharacterError (liveState\<lparr>status := SPEAKING\<rparr>)
   \<and> status (handleMessage 0 (audioMessage ''!'') liveState) = IDLE
   \<and> error (handleMessage 0 (audioMessage ''!'') liveState) = None
   \<and> microphoneStreamRef (handleMessage 0 (audioMessage ''!'') liveState) = None
   \<and> sessionPromiseRef (handleMessage 0 (audioMessage ''!'') liveState) = None
   \<and> audioSourcesRef (handleMessage 0 (audioMessage ''!'') liveState) = []
   \<and> nextStartTimeRef (handleMessage 0 (audioMessage ''!'') liveState) = 0
   \<and> new_effects liveState (handleMessage 0 (audioMessage ''!'') liveState)
       = [ConsoleError, TrackStop, ProcessorDisconnect, CloseInputContext, CloseOutputContext,
          SessionClose 0]"
  by (simp add: handleMessage_throw [OF try_bad_audio] try_bad_audio new_effects_def
      cleanup_trace)

lemma handleMessage_throw_fields:
  assumes "throws (handleMessage_try now m s)"
  shows "status (handleMessage now m s) = IDLE" "error (handleMessage now m s) = None"
    "microphoneStreamRef (handleMessage now m s) = None"
    "scriptProcessorRef (handleMessage now m s) = None"
    "sessionPromiseRef (handleMessage now m s) = None"
    "audioSourcesRef (handleMessage now m s) = []"
    "nextStartTimeRef (handleMessage now m s) = 0"
  using assms by (cases "handleMessage_try now m s"; simp add: handleMessage_def)+

subsection \<open>Turn completion\<close>

lemma turnComplete_eq:
  "handleMessage now turnCompleteMessage s =
     s\<lparr>conversation :=
         finalizeTurn (trim (currentInputTranscriptionRef s))
           (trim (currentOutputTranscriptionRef s)) (conversation s),
       currentInputTranscriptionRef := [],
       currentOutputTranscriptionRef := [],
       status := LISTENING\<rparr>"
  by (simp add: handleMessage_def handleMessage_try_def turnCompleteMessage_def noContent_def
      toolCallStep_def transcriptionStep_def turnCompleteStep_def audioStep_def
      base64Audio_of_def interruptedStep_def Let_def)

lemma update_last:
  assumes "c \<noteq> []"
  shows "c[length c - Suc 0 := x] = butlast c @ [x]"
proof -
  from assms obtain ys y where c: "c = ys @ [y]" by (metis rev_exhaust)
  show ?thesis by (simp add: c)
qed

lemma finalizeTurn_eq:
  "finalizeTurn userInput aiResponse prev =
     (if userInput \<noteq> [] \<and> prev \<noteq> [] \<and> speaker (last prev) = User
      then butlast prev @ [\<lparr>speaker = User, turn_text = userInput\<rparr>] else prev)
     @ (if aiResponse \<noteq> [] then [\<lparr>speaker = AI, turn_text = aiResponse\<rparr>] else [])"
proof (cases "userInput \<noteq> [] \<and> prev \<noteq> [] \<and> speaker (last prev) = User")
  case True
  then have ne: "prev \<noteq> []" and u: "speaker (last prev) = User" by simp_all
  have l: "prev ! (length prev - Suc 0) = last prev" using ne by (simp add: last_conv_nth)
  have r: "(last prev)\<lparr>turn_text := userInput\<rparr> = \<lparr>speaker = User, turn_text = userInput\<rparr>"
    using u by (cases "last prev") simp
  show ?thesis using True by (simp add: finalizeTurn_def Let_def l r update_last [OF ne])
next
  case False
  then show ?thesis by (auto simp: finalizeTurn_def Let_def last_conv_nth)
qed

text \<open>
  Claim C1, as the code has it. For every state, handling the turn-complete message sets
  the text of the last log entry to the trimmed user accumulator when that entry is a user
  turn and the trimmed accumulator is non-empty, leaves every other entry as it was, appends
  one AI entry holding the trimmed AI accumulator if and only if that trimmed accumulator is
  non-empty, empties both accumulators and sets Status to LISTENING.
\<close>

theorem turnComplete_finalizes:
  "conversation (handleMessage now turnCompleteMessage s) =
     (if trim (currentInputTranscriptionRef s) \<noteq> [] \<and> conversation s \<noteq> []
         \<and> speaker (last (conversation s)) = User
      then butlast (conversation s)
           @ [\<lparr>speaker = User, turn_text = trim (currentInputTranscriptionRef s)\<rparr>]
      else conversation s)
     @ (if trim (currentOutputTranscriptionRef s) \<noteq> []
        then [\<lparr>speaker = AI, turn_text = trim (currentOutputTranscriptionRef s)\<rparr>] else [])
   \<and> currentInputTranscriptionRef (handleMessage now turnCompleteMessage s) = []
   \<and> currentOutputTranscriptionRef (handleMessage now turnCompleteMessage s) = []
   \<and> status (handleMessage now turnCompleteMessage s) = LISTENING"
  by (simp add: turnComplete_eq finalizeTurn_eq)

lemma outputTranscription_eq:
  "handleMessage now (outputTranscriptionMessage t) s =
     s\<lparr>currentOutputTranscriptionRef := currentOutputTranscriptionRef s @ t\<rparr>"
  by (simp add: handleMessage_def handleMessage_try_def outputTranscriptionMessage_def
      noContent_def toolCallStep_def transcriptionStep_def turnCompleteStep_def audioStep_def
      base64Audio_of_def interruptedStep_def text_of_def Let_def)

lemma inputTranscription_eq:
  "handleMessage now (inputTranscriptionMessage t) s =
     s\<lparr>currentInputTranscriptionRef := currentInputTranscriptionRef s @ t,
       conversation := updateUserTurn (currentInputTranscriptionRef s @ t) (conversation s)\<rparr>"
  by (simp add: handleMessage_def handleMessage_try_def inputTranscriptionMessage_def
      noContent_def toolCallStep_def transcriptionStep_def turnCompleteStep_def audioStep_def
      base64Audio_of_def interruptedStep_def text_of_def Let_def)

lemma trim_examples:
  "trim [] = []"
  "trim '' '' = []"
  "trim ''Hi '' = ''Hi''"
  "trim ''Once upon a time'' = ''Once upon a time''"
  "trim ''The dragon smiled.'' = ''The dragon smiled.''"
  by (simp_all add: trim_def js_whitespace_def)

text \<open>
  Claim C1 as stated fails on accumulators with outer whitespace: an AI accumulator that
  holds one space is non-empty, yet no AI entry is appended; and a user accumulator
  \<open>''Hi ''\<close> finalizes the entry to \<open>''Hi''\<close>, not to the full accumulated transcript.
\<close>

theorem turnComplete_whitespace_accumulator:
  "currentOutputTranscriptionRef (handleMessage 0 (outputTranscriptionMessage '' '') liveState)
     = '' ''
   \<and> conversation
        (handleMessage 0 turnCompleteMessage
           (handleMessage 0 (outputTranscriptionMessage '' '') liveState)) = []
   \<and> currentInputTranscriptionRef (handleMessage 0 (inputTranscriptionMessage ''Hi '') liveState)
       = ''Hi ''
   \<and> conversation
        (handleMessage 0 turnCompleteMessage
           (handleMessage 0 (inputTranscriptionMessage ''Hi '') liveState))
       = [\<lparr>speaker = User, turn_text = ''Hi''\<rparr>]"
  by (simp add: outputTranscription_eq inputTranscription_eq turnComplete_eq finalizeTurn_eq
      trim_examples updateUserTurn_def)

text \<open>
  The example of the specification: the user deltas Once, upon, a time, a turn-complete
  signal, the AI deltas The dragon and smiled, and a second turn-complete signal.
\<close>

theorem turnComplete_finalizes_witness:
  "conversation
     (run [Message 0 (inputTranscriptionMessage ''Once ''),
           Message 0 (inputTranscriptionMessage ''upon ''),
           Message 0 (inputTranscriptionMessage ''a time''),
           Message 0 turnCompleteMessage,
           Message 0 (outputTranscriptionMessage ''The dragon''),
           Message 0 (outputTranscriptionMessage '' smiled.''),
           Message 0 turnCompleteMessage] liveState)
     = [\<lparr>speaker = User, turn_text = ''Once upon a time''\<rparr>,
        \<lparr>speaker = AI, turn_text = ''The dragon smiled.''\<rparr>]
   \<and> currentInputTranscriptionRef
        (run [Message 0 (inputTranscriptionMessage ''Once ''),
              Message 0 (inputTranscriptionMessage ''upon ''),
              Message 0 (inputTranscriptionMessage ''a time''),
              Message 0 turnCompleteMessage,
              Message 0 (outputTranscriptionMessage ''The dragon''),
              Message 0 (outputTranscriptionMessage '' smiled.''),
              Message 0 turnCompleteMessage] liveState) = []
   \<and> currentOutputTranscriptionRef
        (run [Message 0 (inputTranscriptionMessage ''Once ''),
              Message 0 (inputTranscriptionMessage ''upon ''),
              Message 0 (inputTranscriptionMessage ''a time''),
              Message 0 turnCompleteMessage,
              Message 0 (outputTranscriptionMessage ''The dragon''),
              Message 0 (outputTranscriptionMessage '' smiled.''),
              Message 0 turnCompleteMessage] liveState) = []"
proof -
  define before where
    "before = run [Message 0 (inputTranscriptionMessage ''Once ''),
                   Message 0 (inputTranscriptionMessage ''upon ''),
                   Message 0 (inputTranscriptionMessage ''a time''),
                   Message 0 turnCompleteMessage,
                   Message 0 (outputTranscriptionMessage ''The dragon''),
                   Message 0 (outputTranscriptionMessage '' smiled.'')] liveState"
  have before: "conversation before = [\<lparr>speaker = User, turn_text = ''Once upon a time''\<rparr>]"
    "currentInputTranscriptionRef before = []"
    "currentOutputTranscriptionRef before = ''The dragon smiled.''"
    by (simp_all add: before_def outputTranscription_eq inputTranscription_eq turnComplete_eq
        finalizeTurn_eq trim_examples updateUserTurn_def)
  have last: "run [Message 0 (inputTranscriptionMessage ''Once ''),
                   Message 0 (inputTranscriptionMessage ''upon ''),
                   Message 0 (inputTranscriptionMessage ''a time''),
                   Message 0 turnCompleteMessage,
                   Message 0 (outputTranscriptionMessage ''The dragon''),
                   Message 0 (outputTranscriptionMessage '' smiled.''),
                   Message 0 turnCompleteMessage] liveState
              = handleMessage 0 turnCompleteMessage before"
    by (simp add: before_def)
  from turnComplete_finalizes [of 0 before] show ?thesis
    unfolding last by (simp add: before trim_examples)
qed

subsection \<open>A message with both transcription deltas\<close>

lemma transcriptionStep_both:
  assumes "serverContent m = Some sc" "outputTranscription sc = Some ot"
  shows "transcriptionStep m s
           = s\<lparr>currentOutputTranscriptionRef := currentOutputTranscriptionRef s @ text_of ot\<rparr>"
  using assms by (simp add: transcriptionStep_def)

lemma stopSources_log [simp]:
  "conversation (interruptedStep m s) = conversation s"
  "currentInputTranscriptionRef (interruptedStep m s) = currentInputTranscriptionRef s"
  "currentOutputTranscriptionRef (interruptedStep m s) = currentOutputTranscriptionRef s"
  by (simp_all add: interruptedStep_def split: option.splits)

lemma scheduleNext_log [simp]:
  "conversation (scheduleNext now b s) = conversation s"
  "currentInputTranscriptionRef (scheduleNext now b s) = currentInputTranscriptionRef s"
  "currentOutputTranscriptionRef (scheduleNext now b s) = currentOutputTranscriptionRef s"
  "status (scheduleNext now b s) = status s"
  "error (scheduleNext now b s) = error s"
  by (simp_all add: scheduleNext_def Let_def)

lemma audioStep_log [simp]:
  "conversation (state_of (audioStep now m s)) = conversation s"
  "currentInputTranscriptionRef (state_of (audioStep now m s)) = currentInputTranscriptionRef s"
  "currentOutputTranscriptionRef (state_of (audioStep now m s)) = currentOutputTranscriptionRef s"
  "error (state_of (audioStep now m s)) = error s"
  by (simp_all add: audioStep_def Let_def split: sum.splits option.splits)

lemma handleMessage_after_audio:
  "handleMessage now m s =
     (case and_then
             (and_then (toolCallStep m s)
                (\<lambda>s. Normal (turnCompleteStep m (transcriptionStep m s))))
             (audioStep now m) of
        Normal s' \<Rightarrow> interruptedStep m s'
      | Return s' \<Rightarrow> s'
      | Throw e s' \<Rightarrow>
          cleanup ((emit [ConsoleError] s')\<lparr>error := Some processingError, status := ERROR\<rparr>))"
proof -
  have "handleMessage_try now m s =
          and_then
            (and_then
               (and_then (toolCallStep m s)
                  (\<lambda>s. Normal (turnCompleteStep m (transcriptionStep m s))))
               (audioStep now m))
            (\<lambda>s. Normal (interruptedStep m s))"
    by (cases "toolCallStep m s") (simp_all add: handleMessage_try_def)
  then show ?thesis
    by (simp add: handleMessage_def split: completion.splits)
qed

lemma drop_input_steps:
  assumes "serverContent m = Some sc" "outputTranscription sc = Some ot"
  defines "m' \<equiv> m\<lparr>serverContent := Some (sc\<lparr>inputTranscription := None\<rparr>)\<rparr>"
  shows "toolCallStep m' = toolCallStep m" "transcriptionStep m' = transcriptionStep m"
    "turnCompleteStep m' = turnCompleteStep m" "audioStep now m' = audioStep now m"
    "interruptedStep m' = interruptedStep m"
  using assms(1,2)
  by (auto simp: m'_def fun_eq_iff toolCallStep_def transcriptionStep_def turnCompleteStep_def
      audioStep_def base64Audio_of_def interruptedStep_def)

lemma drop_input:
  assumes "serverContent m = Some sc" "outputTranscription sc = Some ot"
  shows "handleMessage now m s
           = handleMessage now (m\<lparr>serverContent := Some (sc\<lparr>inputTranscription := None\<rparr>)\<rparr>) s"
  by (simp only: handleMessage_def handleMessage_try_def drop_input_steps [OF assms])

lemma both_deltas_fields:
  assumes sc: "serverContent m = Some sc" and ot: "outputTranscription sc = Some ot"
    and nt: "\<not> turnComplete sc" and tc: "\<not> throws (toolCallStep m s)"
  shows "currentOutputTranscriptionRef (handleMessage now m s)
           = currentOutputTranscriptionRef s @ text_of ot"
    and "currentInputTranscriptionRef (handleMessage now m s) = currentInputTranscriptionRef s"
    and "conversation (handleMessage now m s) = conversation s"
proof -
  obtain s1 where s1: "toolCallStep m s = Normal s1"
    using tc toolCallStep_no_return [of m s] by (cases "toolCallStep m s") auto
  have f1: "conversation s1 = conversation s"
    "currentInputTranscriptionRef s1 = currentInputTranscriptionRef s"
    "currentOutputTranscriptionRef s1 = currentOutputTranscriptionRef s"
    using toolCallStep_frame [of m s] by (simp_all add: s1)
  let ?s2 = "s1\<lparr>currentOutputTranscriptionRef := currentOutputTranscriptionRef s1 @ text_of ot\<rparr>"
  have t: "turnCompleteStep m (transcriptionStep m s1) = ?s2"
    using sc nt by (simp add: transcriptionStep_both [OF sc ot] turnCompleteStep_def)
  have h: "handleMessage now m s =
     (case audioStep now m ?s2 of
        Normal s' \<Rightarrow> interruptedStep m s'
      | Return s' \<Rightarrow> s'
      | Throw e s' \<Rightarrow>
          cleanup ((emit [ConsoleError] s')\<lparr>error := Some processingError, status := ERROR\<rparr>))"
    by (simp add: handleMessage_after_audio s1 t)
  have a: "conversation (state_of (audioStep now m ?s2)) = conversation s"
    "currentInputTranscriptionRef (state_of (audioStep now m ?s2)) = currentInputTranscriptionRef s"
    "currentOutputTranscriptionRef (state_of (audioStep now m ?s2))
       = currentOutputTranscriptionRef s @ text_of ot"
    by (simp_all add: f1)
  show "currentOutputTranscriptionRef (handleMessage now m s)
           = currentOutputTranscriptionRef s @ text_of ot"
    using a(3) by (cases "audioStep now m ?s2") (simp_all add: h)
  show "currentInputTranscriptionRef (handleMessage now m s) = currentInputTranscriptionRef s"
    using a(2) by (cases "audioStep now m ?s2") (simp_all add: h)
  show "conversation (handleMessage now m s) = conversation s"
    using a(1) by (cases "audioStep now m ?s2") (simp_all add: h)
qed

text \<open>
  Claim C10, as the code has it. For every message that carries both transcription deltas,
  the user delta is discarded: handling the message is the same as handling it without the
  user delta, and the transcription branch appends only the AI text to the outbound
  accumulator. When the message does not also carry the turn-complete flag and its tool-call
  part does not throw, then after the handler the outbound accumulator is the old one
  followed by the AI text, and the inbound-user accumulator and the conversation log are
  unchanged.
\<close>

theorem both_deltas_user_discarded:
  assumes "serverContent m = Some sc" and "outputTranscription sc = Some ot"
    and "inputTranscription sc = Some it0"
  shows "handleMessage now m s
           = handleMessage now (m\<lparr>serverContent := Some (sc\<lparr>inputTranscription := None\<rparr>)\<rparr>) s
     \<and> transcriptionStep m s
           = s\<lparr>currentOutputTranscriptionRef := currentOutputTranscriptionRef s @ text_of ot\<rparr>
     \<and> (\<not> turnComplete sc \<and> \<not> throws (toolCallStep m s) \<longrightarrow>
           currentOutputTranscriptionRef (handleMessage now m s)
             = currentOutputTranscriptionRef s @ text_of ot
           \<and> currentInputTranscriptionRef (handleMessage now m s) = currentInputTranscriptionRef s
           \<and> conversation (handleMessage now m s) = conversation s)"
  using drop_input [OF assms(1,2)] transcriptionStep_both [OF assms(1,2)]
    both_deltas_fields [OF assms(1,2)] by blast

text \<open>
  A message with the deltas A and B in an open session.
\<close>

theorem both_deltas_user_discarded_witness:
  "outputTranscription (the (serverContent (bothDeltasMessage ''A'' ''B'' False)))
     = Some \<lparr>transcription_text = Some ''A''\<rparr>
   \<and> inputTranscription (the (serverContent (bothDeltasMessage ''A'' ''B'' False)))
     = Some \<lparr>transcription_text = Some ''B''\<rparr>
   \<and> currentOutputTranscriptionRef (handleMessage 0 (bothDeltasMessage ''A'' ''B'' False) liveState)
     = ''A''
   \<and> currentInputTranscriptionRef (handleMessage 0 (bothDeltasMessage ''A'' ''B'' False) liveState)
     = []
   \<and> conversation (handleMessage 0 (bothDeltasMessage ''A'' ''B'' False) liveState) = []"
proof -
  let ?m = "bothDeltasMessage ''A'' ''B'' False"
  let ?sc = "noContent\<lparr>outputTranscription := Some \<lparr>transcription_text = Some ''A''\<rparr>,
                        inputTranscription := Some \<lparr>transcription_text = Some ''B''\<rparr>,
                        turnComplete := False\<rparr>"
  have h: "serverContent ?m = Some ?sc"
    "outputTranscription ?sc = Some \<lparr>transcription_text = Some ''A''\<rparr>"
    "inputTranscription ?sc = Some \<lparr>transcription_text = Some ''B''\<rparr>"
    by (simp_all add: bothDeltasMessage_def)
  have n: "\<not> turnComplete ?sc" "\<not> throws (toolCallStep ?m liveState)"
    by (simp_all add: bothDeltasMessage_def toolCallStep_def)
  from both_deltas_user_discarded [OF h, of 0 liveState] n
  have "currentOutputTranscriptionRef (handleMessage 0 ?m liveState)
          = currentOutputTranscriptionRef liveState @ text_of \<lparr>transcription_text = Some ''A''\<rparr>
        \<and> currentInputTranscriptionRef (handleMessage 0 ?m liveState)
          = currentInputTranscriptionRef liveState
        \<and> conversation (handleMessage 0 ?m liveState) = conversation liveState"
    by blast
  then show ?thesis by (simp add: h text_of_def)
qed

text \<open>
  Claim C10 as stated fails when the message also carries the turn-complete flag: the AI
  text moves into the log and the outbound accumulator is reset. It also fails when the
  message carries a \<open>playSoundEffect\<close> call without arguments: the tool-call part throws
  before the transcription branch, and the AI text is never appended.
\<close>

theorem both_deltas_overridden:
  "conversation liveState = []
   \<and> conversation (handleMessage 0 (bothDeltasMessage ''A'' ''B'' True) liveState)
       = [\<lparr>speaker = AI, turn_text = ''A''\<rparr>]
   \<and> currentOutputTranscriptionRef (handleMessage 0 (bothDeltasMessage ''A'' ''B'' True) liveState)
       = []
   \<and> currentOutputTranscriptionRef
        (handleMessage 0
           ((bothDeltasMessage ''A'' ''B'' False)
              \<lparr>toolCall :=
                 Some \<lparr>functionCalls =
                         Some [\<lparr>fc_id = Some ''call-1'', fc_name = Some ''playSoundEffect'',
                                fc_args = None\<rparr>]\<rparr>\<rparr>)
           liveState)
       = []"
  by (simp add: handleMessage_def handleMessage_try_def bothDeltasMessage_def noContent_def
      toolCallStep_def transcriptionStep_def turnCompleteStep_def audioStep_def
      base64Audio_of_def interruptedStep_def text_of_def Let_def finalizeTurn_eq trim_def
      js_whitespace_def)

subsection \<open>Scheduling\<close>

lemma scheduleNext_sources:
  "audioSourcesRef (scheduleNext now b s) =
     audioSourcesRef s
     @ [\<lparr>node_id = nextNodeId s, start_when = max (nextStartTimeRef s) now,
         node_duration = duration b\<rparr>]"
  by (simp add: scheduleNext_def Let_def)

lemma scheduleNext_cursor:
  "nextStartTimeRef (scheduleNext now b s) = max (nextStartTimeRef s) now + duration b"
  by (simp add: scheduleNext_def Let_def)

lemma scheduleAll_sources:
  "\<exists>new. audioSourcesRef (scheduleAll fs s) = audioSourcesRef s @ new
     \<and> map start_when new = starts fs (nextStartTimeRef s)"
proof (induction fs arbitrary: s)
  case Nil
  show ?case by simp
next
  case (Cons f fs)
  obtain now b where f: "f = (now, b)" by (cases f)
  from Cons [of "scheduleNext now b s"] obtain new where
    n: "audioSourcesRef (scheduleAll fs (scheduleNext now b s))
          = audioSourcesRef (scheduleNext now b s) @ new"
       "map start_when new = starts fs (nextStartTimeRef (scheduleNext now b s))"
    by blast
  show ?case
    by (simp add: f n scheduleNext_sources scheduleNext_cursor)
qed

lemma scheduleAll_cursor:
  "nextStartTimeRef (scheduleAll fs s) = cursor_after fs (nextStartTimeRef s)"
  by (induction fs arbitrary: s) (auto simp: scheduleNext_cursor)

lemma length_starts: "length (starts fs c) = length fs"
  by (induction fs arbitrary: c) auto

lemma starts_ge_now: "k < length fs \<Longrightarrow> fst (fs ! k) \<le> starts fs c ! k"
proof (induction fs arbitrary: c k)
  case Nil
  then show ?case by simp
next
  case (Cons f fs)
  obtain now b where f: "f = (now, b)" by (cases f)
  show ?case using Cons by (cases k) (simp_all add: f)
qed

lemma cursor_after_take:
  "k < length fs \<Longrightarrow>
   cursor_after (take (Suc k) fs) c = starts fs c ! k + duration (snd (fs ! k))
   \<and> starts fs c ! k = max (cursor_after (take k fs) c) (fst (fs ! k))"
proof (induction fs arbitrary: c k)
  case Nil
  then show ?case by simp
next
  case (Cons f fs)
  obtain now b where f: "f = (now, b)" by (cases f)
  show ?case using Cons by (cases k) (simp_all add: f)
qed

lemma starts_chain:
  assumes "Suc k < length fs"
  shows "starts fs c ! k + duration (snd (fs ! k)) \<le> starts fs c ! Suc k"
proof -
  have k: "k < length fs" using assms by simp
  have "starts fs c ! Suc k = max (cursor_after (take (Suc k) fs) c) (fst (fs ! Suc k))"
    using cursor_after_take [OF assms] by simp
  also have "cursor_after (take (Suc k) fs) c = starts fs c ! k + duration (snd (fs ! k))"
    using cursor_after_take [OF k] by simp
  finally show ?thesis by simp
qed

text \<open>
  Claim C5, as the code has it. For any sequence of schedulings with no interruption or
  teardown in between, the start time of fragment \<open>k\<close> is at least the clock reading at its
  call and at least the start time of fragment \<open>k - 1\<close> plus that fragment's duration; after
  the call the cursor equals the fragment's start time plus its duration. Over the call the
  cursor advances by at least the duration, and by exactly the duration if and only if the
  clock was not ahead of the cursor.
\<close>

theorem scheduling_monotone:
  assumes "k < length fs"
  shows "length (drop (length (audioSourcesRef s)) (audioSourcesRef (scheduleAll fs s)))
           = length fs
     \<and> fst (fs ! k)
         \<le> start_when (audioSourcesRef (scheduleAll fs s) ! (length (audioSourcesRef s) + k))
     \<and> (0 < k \<longrightarrow>
          start_when (audioSourcesRef (scheduleAll fs s) ! (length (audioSourcesRef s) + (k - 1)))
            + duration (snd (fs ! (k - 1)))
          \<le> start_when (audioSourcesRef (scheduleAll fs s) ! (length (audioSourcesRef s) + k)))
     \<and> nextStartTimeRef (scheduleAll (take (Suc k) fs) s)
         = start_when (audioSourcesRef (scheduleAll fs s) ! (length (audioSourcesRef s) + k))
           + duration (snd (fs ! k))
     \<and> nextStartTimeRef (scheduleAll (take k fs) s) + duration (snd (fs ! k))
         \<le> nextStartTimeRef (scheduleAll (take (Suc k) fs) s)
     \<and> (nextStartTimeRef (scheduleAll (take (Suc k) fs) s)
           = nextStartTimeRef (scheduleAll (take k fs) s) + duration (snd (fs ! k))
         \<longleftrightarrow> fst (fs ! k) \<le> nextStartTimeRef (scheduleAll (take k fs) s))"
proof -
  let ?c = "nextStartTimeRef s"
  let ?n = "length (audioSourcesRef s)"
  obtain new where new: "audioSourcesRef (scheduleAll fs s) = audioSourcesRef s @ new"
    "map start_when new = starts fs ?c"
    using scheduleAll_sources by blast
  have len: "length new = length fs"
    using new(2) length_starts [of fs ?c] by (metis length_map)
  have nth: "start_when (audioSourcesRef (scheduleAll fs s) ! (?n + j)) = starts fs ?c ! j"
    if "j < length fs" for j
  proof -
    have "audioSourcesRef (scheduleAll fs s) ! (?n + j) = new ! j"
      by (simp add: new(1))
    moreover have "start_when (new ! j) = map start_when new ! j"
      using that len by simp
    ultimately show ?thesis by (simp add: new(2))
  qed
  have k1: "0 < k \<Longrightarrow> k - 1 < length fs" "0 < k \<Longrightarrow> Suc (k - 1) = k"
    using assms by simp_all
  have c: "cursor_after (take (Suc k) fs) ?c = starts fs ?c ! k + duration (snd (fs ! k))"
    "starts fs ?c ! k = max (cursor_after (take k fs) ?c) (fst (fs ! k))"
    using cursor_after_take [OF assms] by simp_all
  have "length (drop ?n (audioSourcesRef (scheduleAll fs s))) = length fs"
    by (simp add: new(1) len)
  moreover have "fst (fs ! k) \<le> start_when (audioSourcesRef (scheduleAll fs s) ! (?n + k))"
    using starts_ge_now [OF assms] by (simp add: nth [OF assms])
  moreover have "0 < k \<longrightarrow>
          start_when (audioSourcesRef (scheduleAll fs s) ! (?n + (k - 1)))
            + duration (snd (fs ! (k - 1)))
          \<le> start_when (audioSourcesRef (scheduleAll fs s) ! (?n + k))"
  proof
    assume p: "0 < k"
    then have "Suc (k - 1) < length fs" using assms by simp
    from starts_chain [OF this, of ?c]
    have "starts fs ?c ! (k - 1) + duration (snd (fs ! (k - 1))) \<le> starts fs ?c ! k"
      by (simp only: k1(2) [OF p])
    then show
      "start_when (audioSourcesRef (scheduleAll fs s) ! (?n + (k - 1)))
            + duration (snd (fs ! (k - 1)))
          \<le> start_when (audioSourcesRef (scheduleAll fs s) ! (?n + k))"
      by (simp only: nth [OF assms] nth [OF k1(1) [OF p]])
  qed
  moreover have "nextStartTimeRef (scheduleAll (take (Suc k) fs) s)
         = start_when (audioSourcesRef (scheduleAll fs s) ! (?n + k)) + duration (snd (fs ! k))"
    by (simp only: scheduleAll_cursor c(1) nth [OF assms])
  moreover have "nextStartTimeRef (scheduleAll (take k fs) s) + duration (snd (fs ! k))
         \<le> nextStartTimeRef (scheduleAll (take (Suc k) fs) s)"
    by (simp only: scheduleAll_cursor c; simp)
  moreover have "nextStartTimeRef (scheduleAll (take (Suc k) fs) s)
           = nextStartTimeRef (scheduleAll (take k fs) s) + duration (snd (fs ! k))
         \<longleftrightarrow> fst (fs ! k) \<le> nextStartTimeRef (scheduleAll (take k fs) s)"
    by (simp only: scheduleAll_cursor c; auto)
  ultimately show ?thesis by blast
qed

lemma audio_via_scheduleNext:
  assumes "outputAudioContextRef s = Some ctx" "d \<noteq> []" "decode d = Inr bytes"
    "decodeAudioData bytes ctx 24000 1 = Inr audioBuffer"
  shows "handleMessage now (audioMessage d) s = scheduleNext now audioBuffer (s\<lparr>status := SPEAKING\<rparr>)"
  using assms
  by (simp add: handleMessage_def handleMessage_try_def audioMessage_def noContent_def
      toolCallStep_def transcriptionStep_def turnCompleteStep_def audioStep_def
      base64Audio_of_def interruptedStep_def Let_def)

lemma decode_silence: "decode ''AAA='' = Inr [0, 0]"
  by (simp add: decode_def atob_def strip_padding_def ascii_whitespace_def char_sextet_def
      Let_def)

lemma decodeAudioData_silence:
  "decodeAudioData [0, 0] Running 24000 1
     = Inr \<lparr>numberOfChannels = 1, frames = 1, sampleRate = 24000, channelData = [replicate 1 0]\<rparr>"
  by (simp add: decodeAudioData_def Int16Array_def createBuffer_def Let_def)

lemma duration_silence: "duration silence = 1 / 24000"
  by (simp add: duration_def silence_def)

text \<open>
  Claim C5 as stated fails at the first fragment of a session: the cursor is 0, the clock
  reads 5, and the cursor advances by 5 plus the duration, not by the duration.
\<close>

theorem first_fragment_cursor_jump:
  "nextStartTimeRef liveState = 0
   \<and> audioSourcesRef (handleMessage 5 (audioMessage ''AAA='') liveState)
       = [\<lparr>node_id = 0, start_when = 5, node_duration = 1 / 24000\<rparr>]
   \<and> nextStartTimeRef (handleMessage 5 (audioMessage ''AAA='') liveState) = 5 + 1 / 24000
   \<and> nextStartTimeRef (handleMessage 5 (audioMessage ''AAA='') liveState)
       - nextStartTimeRef liveState \<noteq> 1 / 24000"
proof -
  have "handleMessage 5 (audioMessage ''AAA='') liveState
          = scheduleNext 5 silence (liveState\<lparr>status := SPEAKING\<rparr>)"
    unfolding silence_def
    by (rule audio_via_scheduleNext [OF _ _ decode_silence decodeAudioData_silence]) simp_all
  then show ?thesis
    by (simp add: scheduleNext_sources scheduleNext_cursor duration_silence)
qed

text \<open>
  Two one-sample fragments scheduled at clock reading 5 in an open session.
\<close>

theorem scheduling_monotone_witness:
  "(1::nat) < length [(5, silence), (5, silence)]
   \<and> map start_when (audioSourcesRef (scheduleAll [(5, silence), (5, silence)] liveState))
       = [5, 5 + 1 / 24000]
   \<and> fst ([(5, silence), (5, silence)] ! 1)
       \<le> start_when (audioSourcesRef (scheduleAll [(5, silence), (5, silence)] liveState) ! 1)
   \<and> start_when (audioSourcesRef (scheduleAll [(5, silence), (5, silence)] liveState) ! 0)
         + duration silence
       \<le> start_when (audioSourcesRef (scheduleAll [(5, silence), (5, silence)] liveState) ! 1)
   \<and> nextStartTimeRef (scheduleAll [(5, silence), (5, silence)] liveState)
       = start_when (audioSourcesRef (scheduleAll [(5, silence), (5, silence)] liveState) ! 1)
         + duration silence"
proof -
  have l: "(1::nat) < length [(5::real, silence), (5, silence)]" by simp
  have m: "map start_when (audioSourcesRef (scheduleAll [(5, silence), (5, silence)] liveState))
       = [5, 5 + 1 / 24000]"
    by (simp add: scheduleNext_sources scheduleNext_cursor duration_silence)
  from scheduling_monotone [OF l, of liveState] l m show ?thesis by simp
qed

subsection \<open>Status and error message\<close>

lemma transcriptionStep_status_error [simp]:
  "status (transcriptionStep m s) = status s" "error (transcriptionStep m s) = error s"
  by (simp_all add: transcriptionStep_def Let_def split: option.splits)

lemma turnCompleteStep_status_error:
  "error (turnCompleteStep m s) = error s"
  "status s \<noteq> ERROR \<Longrightarrow> status (turnCompleteStep m s) \<noteq> ERROR"
  by (simp_all add: turnCompleteStep_def Let_def split: option.splits)

lemma audioStep_status:
  "status s \<noteq> ERROR \<Longrightarrow> status (state_of (audioStep now m s)) \<noteq> ERROR"
  by (simp add: audioStep_def Let_def split: sum.splits option.splits)

lemma interruptedStep_status_error [simp]:
  "status (interruptedStep m s) = status s" "error (interruptedStep m s) = error s"
  by (simp_all add: interruptedStep_def split: option.splits)

lemma handleMessage_try_status_error:
  "error (state_of (handleMessage_try now m s)) = error s"
  "status s \<noteq> ERROR \<Longrightarrow> status (state_of (handleMessage_try now m s)) \<noteq> ERROR"
proof -
  let ?f = "\<lambda>s1. turnCompleteStep m (transcriptionStep m s1)"
  have e1: "error (?f s1) = error s1" for s1
    by (simp add: turnCompleteStep_status_error)
  have t1: "status s1 \<noteq> ERROR \<Longrightarrow> status (?f s1) \<noteq> ERROR" for s1
    by (simp add: turnCompleteStep_status_error)
  show "error (state_of (handleMessage_try now m s)) = error s"
  proof (cases "toolCallStep m s")
    case (Normal s1)
    then have "error s1 = error s" using toolCallStep_frame(3) [of m s] by simp
    then show ?thesis using e1 [of s1]
      by (cases "audioStep now m (?f s1)";
          simp add: handleMessage_try_def Normal;
          metis audioStep_log(4) state_of.simps)
  next
    case (Return s1)
    then show ?thesis using toolCallStep_no_return by blast
  next
    case (Throw e s1)
    then show ?thesis using toolCallStep_frame(3) [of m s] by (simp add: handleMessage_try_def)
  qed
  assume ne: "status s \<noteq> ERROR"
  show "status (state_of (handleMessage_try now m s)) \<noteq> ERROR"
  proof (cases "toolCallStep m s")
    case (Normal s1)
    then have "status s1 \<noteq> ERROR" using ne toolCallStep_frame(1) [of m s] by simp
    then have "status (state_of (audioStep now m (?f s1))) \<noteq> ERROR"
      by (intro audioStep_status t1)
    then show ?thesis
      by (cases "audioStep now m (?f s1)"; simp add: handleMessage_try_def Normal)
  next
    case (Return s1)
    then show ?thesis using toolCallStep_no_return by blast
  next
    case (Throw e s1)
    then show ?thesis using ne toolCallStep_frame(1) [of m s]
      by (simp add: handleMessage_try_def)
  qed
qed

lemma handleMessage_invariant:
  assumes "error_invariant s" "status s \<noteq> ERROR"
  shows "error_invariant (handleMessage now m s)"
proof (cases "handleMessage_try now m s")
  case (Throw e s')
  then show ?thesis by (simp add: handleMessage_def error_invariant_def)
next
  case (Normal s')
  with handleMessage_try_status_error(1) [of now m s]
    handleMessage_try_status_error(2) [OF assms(2), of now m] assms show ?thesis
    by (simp add: handleMessage_def error_invariant_def)
next
  case (Return s')
  with handleMessage_try_status_error(1) [of now m s]
    handleMessage_try_status_error(2) [OF assms(2), of now m] assms show ?thesis
    by (simp add: handleMessage_def error_invariant_def)
qed

lemma preloadSounds_status_error [simp]:
  "status (preloadSounds d s) = status s" "error (preloadSounds d s) = error s"
proof -
  have "status (preloadSounds_loop d keys s) = status s
        \<and> error (preloadSounds_loop d keys s) = error s" for keys
    by (induction keys arbitrary: s) simp_all
  then show "status (preloadSounds d s) = status s" "error (preloadSounds d s) = error s"
    by (simp_all add: preloadSounds_def)
qed

lemma startFailed_status_error [simp]:
  "status (startFailed e s) = ERROR"
  "error (startFailed e s)
     = Some (if e = NotAllowedError \<or> e = NotFoundError then microphoneError else setupError)"
  by (simp_all add: startFailed_def Let_def)

lemma startSession_invariant:
  assumes "error_invariant s" "status s \<noteq> ERROR"
  shows "error_invariant (startSession env s)"
  using assms
  by (simp add: startSession_def error_invariant_def Let_def split: sum.splits)

lemma startSession_failed:
  assumes "status s = IDLE \<or> status s = ERROR"
    and "(\<exists>e. getUserMedia env = Inl e) \<or> (newOutputState env = Suspended \<and> \<not> resumeOk env)
         \<or> \<not> apiKeySet env"
  shows "status (startSession env s) = ERROR" "error (startSession env s) \<noteq> None"
  using assms
  by (auto simp: startSession_def Let_def split: sum.splits)

lemma teardown_invariant:
  "error_invariant (stopSession s)" "error_invariant (onClose s)" "error_invariant (onError s)"
  "error_invariant (onConnectionError s)"
  by (simp_all add: error_invariant_def stopSession_def onClose_def onError_def
      onConnectionError_def)

lemma fire_invariant:
  assumes "error_invariant s" "status s \<noteq> ERROR"
  shows "error_invariant (fire e s)"
proof (cases e)
  case (Start env)
  then show ?thesis using assms by (simp add: startSession_invariant)
next
  case (Message now m)
  then show ?thesis using assms by (simp add: handleMessage_invariant)
next
  case Open
  then show ?thesis using assms by (simp add: onOpen_def error_invariant_def)
next
  case (Ended src)
  then show ?thesis using assms by (simp add: onEnded_def error_invariant_def Let_def)
qed (simp_all add: teardown_invariant)

text \<open>
  Claim C4, as the code has it. The equivalence of Status = ERROR and a set error message
  holds in the initial state; it holds after every teardown (stop, channel close, channel
  error, connection failure, an exception while handling a message); a start that fails
  acquisition from IDLE or ERROR ends in ERROR with a message; and every handler run from a
  state that satisfies the equivalence and whose Status is not ERROR preserves it.
\<close>

theorem error_invariant_steps:
  "error_invariant initial
   \<and> (\<forall>s. error_invariant (stopSession s) \<and> error_invariant (onClose s)
          \<and> error_invariant (onError s) \<and> error_invariant (onConnectionError s))
   \<and> (\<forall>now m s. throws (handleMessage_try now m s) \<longrightarrow> error_invariant (handleMessage now m s))
   \<and> (\<forall>env s. (status s = IDLE \<or> status s = ERROR)
          \<and> ((\<exists>e. getUserMedia env = Inl e) \<or> (newOutputState env = Suspended \<and> \<not> resumeOk env)
              \<or> \<not> apiKeySet env)
          \<longrightarrow> status (startSession env s) = ERROR \<and> error (startSession env s) \<noteq> None)
   \<and> (\<forall>e s. error_invariant s \<and> status s \<noteq> ERROR \<longrightarrow> error_invariant (fire e s))"
proof -
  have "error_invariant initial" by (simp add: error_invariant_def initial_def)
  moreover have "throws (handleMessage_try now m s) \<Longrightarrow> error_invariant (handleMessage now m s)"
    for now m s
    by (simp add: error_invariant_def handleMessage_throw_fields)
  ultimately show ?thesis
    using teardown_invariant startSession_failed fire_invariant by blast
qed

text \<open>
  Instances in an open session and in the initial state.
\<close>

theorem error_invariant_steps_witness:
  "error_invariant liveState \<and> status liveState \<noteq> ERROR
   \<and> error_invariant (fire (Message 0 turnCompleteMessage) liveState)
   \<and> throws (handleMessage_try 0 (audioMessage ''!'') liveState)
   \<and> error_invariant (handleMessage 0 (audioMessage ''!'') liveState)
   \<and> status initial = IDLE \<and> getUserMedia deniedEnv = Inl NotAllowedError
   \<and> status (startSession deniedEnv initial) = ERROR
   \<and> error (startSession deniedEnv initial) \<noteq> None"
proof -
  have a: "error_invariant liveState \<and> status liveState \<noteq> ERROR"
    by (simp add: error_invariant_def)
  have b: "throws (handleMessage_try 0 (audioMessage ''!'') liveState)"
    by (simp add: try_bad_audio)
  have c: "status initial = IDLE" "getUserMedia deniedEnv = Inl NotAllowedError"
    by (simp_all add: initial_def deniedEnv_def okEnv_def)
  from error_invariant_steps a b c show ?thesis by blast
qed

text \<open>
  Claim C4 as stated fails: after a start that was denied the microphone, a second start
  that succeeds clears the message while Status stays ERROR until the channel opens.
\<close>

theorem restart_from_error_breaks_invariant:
  "status (run [Start deniedEnv] initial) = ERROR
   \<and> error (run [Start deniedEnv] initial) = Some microphoneError
   \<and> status (run [Start deniedEnv, Start okEnv] initial) = ERROR
   \<and> error (run [Start deniedEnv, Start okEnv] initial) = None
   \<and> \<not> error_invariant (run [Start deniedEnv, Start okEnv] initial)"
  by (simp add: error_invariant_def startSession_def startFailed_def deniedEnv_def okEnv_def
      initial_def Let_def)

end
